theory Spec2Isabelle
  imports Complex_Main
begin

section \<open>Python values\<close>

text \<open>
  The repository is Python. Its functions exchange dictionaries that were read from JSON
  files, so a value is modelled as what \<^verbatim>\<open>json.load\<close> can return. A dictionary is an
  association list looked up with \<open>map_of\<close>.

  A \<^verbatim>\<open>float\<close> is a binary double. Its arithmetic is not modelled: the type \<open>'f\<close> of floats is
  a parameter, and the operations the source uses on floats are taken as one more
  parameter, a value of type \<open>float_ops\<close>. Every general theorem below holds for every choice of
  these operations, so also for the ones CPython has.

  A \<^verbatim>\<open>str\<close> is a \<open>string\<close> whose characters are read as the code points 0 to 255.
\<close>

datatype 'f json =
    JNull
  | JBool bool
  | JInt int
  | JFloat 'f
  | JStr string
  | JArr "'f json list"
  | JObj "(string \<times> 'f json) list"

datatype pyexc =
    TypeError
  | ValueError
  | AttributeError
  | KeyError
  | OverflowError
  | IndexError
  | ZeroDivisionError
  | JSONDecodeError
  | IsADirectoryError
  | FileExistsError
  | FileNotFoundError

text \<open>
  The float operations of the interpreter:
  \<^item> \<open>f_lit s\<close>: the value of the float literal written \<open>s\<close> in the source;
  \<^item> \<open>f_of_int n\<close>: \<^verbatim>\<open>float(n)\<close> for an integer, \<open>None\<close> when it raises \<^verbatim>\<open>OverflowError\<close>;
  \<^item> \<open>f_of_str s\<close>: \<^verbatim>\<open>float(s)\<close> for a string, \<open>None\<close> when it raises \<^verbatim>\<open>ValueError\<close>;
  \<^item> \<open>f_sum xs\<close>: what \<^verbatim>\<open>sum\<close> returns for the floats \<open>xs\<close>, at least one, taken in order;
  \<^item> \<open>f_add\<close>, \<open>f_sub\<close>, \<open>f_mul\<close>: \<^verbatim>\<open>+\<close>, \<^verbatim>\<open>-\<close>, \<^verbatim>\<open>*\<close>;
  \<^item> \<open>f_div a b\<close>: \<^verbatim>\<open>a / b\<close>, \<open>None\<close> when it raises \<^verbatim>\<open>ZeroDivisionError\<close>;
  \<^item> \<open>f_abs\<close>: \<^verbatim>\<open>abs\<close>; \<open>f_lt a b\<close>: \<^verbatim>\<open>a < b\<close>; \<open>f_round x n\<close>: \<^verbatim>\<open>round(x, n)\<close>.
\<close>

datatype 'f float_ops = FloatOps
  (f_lit: "string \<Rightarrow> 'f")
  (f_of_int: "int \<Rightarrow> 'f option")
  (f_of_str: "string \<Rightarrow> 'f option")
  (f_sum: "'f list \<Rightarrow> 'f")
  (f_add: "'f \<Rightarrow> 'f \<Rightarrow> 'f")
  (f_sub: "'f \<Rightarrow> 'f \<Rightarrow> 'f")
  (f_mul: "'f \<Rightarrow> 'f \<Rightarrow> 'f")
  (f_div: "'f \<Rightarrow> 'f \<Rightarrow> 'f option")
  (f_abs: "'f \<Rightarrow> 'f")
  (f_lt: "'f \<Rightarrow> 'f \<Rightarrow> bool")
  (f_round: "'f \<Rightarrow> nat \<Rightarrow> 'f")

text \<open>A number of the program is an \<^verbatim>\<open>int\<close> or a \<^verbatim>\<open>float\<close>.\<close>

datatype 'f pynum = PInt int | PFloat 'f

text \<open>
  \<^verbatim>\<open>max(a, b)\<close> keeps its first argument unless the second is strictly greater.
\<close>

definition pymax :: "'f float_ops \<Rightarrow> 'f \<Rightarrow> 'f \<Rightarrow> 'f" where
  "pymax ops a b = (if f_lt ops a b then b else a)"

text \<open>The float an \<^verbatim>\<open>int\<close> becomes when it meets a float in \<^verbatim>\<open>+\<close>.\<close>

definition as_float :: "'f float_ops \<Rightarrow> 'f pynum \<Rightarrow> pyexc + 'f" where
  "as_float ops n =
     (case n of
        PInt i \<Rightarrow> (case f_of_int ops i of None \<Rightarrow> Inl OverflowError | Some x \<Rightarrow> Inr x)
      | PFloat x \<Rightarrow> Inr x)"

text \<open>\<^verbatim>\<open>round(n, k)\<close> with \<open>k \<ge> 0\<close>: an \<^verbatim>\<open>int\<close> is returned as it is.\<close>

definition py_round :: "'f float_ops \<Rightarrow> 'f pynum \<Rightarrow> nat \<Rightarrow> 'f pynum" where
  "py_round ops n k = (case n of PInt i \<Rightarrow> PInt i | PFloat x \<Rightarrow> PFloat (f_round ops x k))"

definition num_json :: "'f pynum \<Rightarrow> 'f json" where
  "num_json n = (case n of PInt i \<Rightarrow> JInt i | PFloat x \<Rightarrow> JFloat x)"

text \<open>
  \<^verbatim>\<open>float(v)\<close>: a float is returned as it is, an integer or a boolean is converted, a string
  is parsed, anything else raises \<^verbatim>\<open>TypeError\<close>.
\<close>

fun py_float :: "'f float_ops \<Rightarrow> 'f json \<Rightarrow> pyexc + 'f" where
  "py_float ops JNull = Inl TypeError"
| "py_float ops (JBool b) =
     (case f_of_int ops (if b then 1 else 0) of None \<Rightarrow> Inl OverflowError | Some x \<Rightarrow> Inr x)"
| "py_float ops (JInt n) =
     (case f_of_int ops n of None \<Rightarrow> Inl OverflowError | Some x \<Rightarrow> Inr x)"
| "py_float ops (JFloat x) = Inr x"
| "py_float ops (JStr s) =
     (case f_of_str ops s of None \<Rightarrow> Inl ValueError | Some x \<Rightarrow> Inr x)"
| "py_float ops (JArr xs) = Inl TypeError"
| "py_float ops (JObj kvs) = Inl TypeError"

subsection \<open>Characters and strings\<close>

text \<open>
  \<^verbatim>\<open>str.isdigit\<close>, \<^verbatim>\<open>str.isspace\<close> and the case mappings on the code points 0 to 255. The
  superscript digits U+00B2, U+00B3 and U+00B9 are digits for \<^verbatim>\<open>isdigit\<close>.
\<close>

definition code :: "char \<Rightarrow> nat" where
  "code c = of_char c"

definition is_decimal :: "char \<Rightarrow> bool" where
  "is_decimal c = (48 \<le> code c \<and> code c \<le> 57)"

definition char_isdigit :: "char \<Rightarrow> bool" where
  "char_isdigit c = (is_decimal c \<or> code c = 178 \<or> code c = 179 \<or> code c = 185)"

definition char_isspace :: "char \<Rightarrow> bool" where
  "char_isspace c =
     ((9 \<le> code c \<and> code c \<le> 13) \<or> (28 \<le> code c \<and> code c \<le> 32)
      \<or> code c = 133 \<or> code c = 160)"

definition ascii_lower :: "char \<Rightarrow> char" where
  "ascii_lower c = (if 65 \<le> code c \<and> code c \<le> 90 then char_of (code c + 32) else c)"

definition ascii_upper :: "char \<Rightarrow> char" where
  "ascii_upper c = (if 97 \<le> code c \<and> code c \<le> 122 then char_of (code c - 32) else c)"

definition isdigit :: "string \<Rightarrow> bool" where
  "isdigit s = (s \<noteq> [] \<and> list_all char_isdigit s)"

definition has_digit :: "string \<Rightarrow> bool" where
  "has_digit s = list_ex char_isdigit s"

text \<open>\<^verbatim>\<open>s.strip()\<close> removes the whitespace at both ends.\<close>

definition strip :: "string \<Rightarrow> string" where
  "strip s = rev (dropWhile char_isspace (rev (dropWhile char_isspace s)))"

definition replace_comma :: "string \<Rightarrow> string" where
  "replace_comma s = filter (\<lambda>c. c \<noteq> CHR '','') s"

fun join :: "string \<Rightarrow> string list \<Rightarrow> string" where
  "join sep [] = []"
| "join sep [x] = x"
| "join sep (x # y # ys) = x @ sep @ join sep (y # ys)"

section \<open>Dictionary and sequence access\<close>

text \<open>
  \<^verbatim>\<open>d.get(k, default)\<close> exists on dictionaries only; on any other value the attribute
  lookup raises \<^verbatim>\<open>AttributeError\<close>. \<^verbatim>\<open>d[k]\<close> with a string key raises \<^verbatim>\<open>KeyError\<close> on a
  dictionary without the key and \<^verbatim>\<open>TypeError\<close> on any other value. Iterating a dictionary
  yields its keys, iterating a string its characters; \<^verbatim>\<open>None\<close>, booleans and numbers are
  not iterable. \<^verbatim>\<open>xs[i]\<close> on a list, for an index that is not negative, raises
  \<^verbatim>\<open>IndexError\<close> out of range.
\<close>

fun py_get :: "'f json \<Rightarrow> string \<Rightarrow> 'f json \<Rightarrow> pyexc + 'f json" where
  "py_get (JObj kvs) k d = Inr (case map_of kvs k of None \<Rightarrow> d | Some v \<Rightarrow> v)"
| "py_get _ k d = Inl AttributeError"

fun py_getitem :: "'f json \<Rightarrow> string \<Rightarrow> pyexc + 'f json" where
  "py_getitem (JObj kvs) k = (case map_of kvs k of None \<Rightarrow> Inl KeyError | Some v \<Rightarrow> Inr v)"
| "py_getitem _ k = Inl TypeError"

fun py_iter :: "'f json \<Rightarrow> pyexc + 'f json list" where
  "py_iter (JArr xs) = Inr xs"
| "py_iter (JObj kvs) = Inr (map (\<lambda>kv. JStr (fst kv)) kvs)"
| "py_iter (JStr s) = Inr (map (\<lambda>c. JStr [c]) s)"
| "py_iter _ = Inl TypeError"

definition py_index :: "'a list \<Rightarrow> nat \<Rightarrow> pyexc + 'a" where
  "py_index xs i = (if i < length xs then Inr (xs ! i) else Inl IndexError)"

section \<open>The verification engine\<close>

text \<open>
  \<^verbatim>\<open>verify_calculations\<close> is defined twice in the repository, with the same text, in
  \<^verbatim>\<open>verification_engine.py\<close> and in \<^verbatim>\<open>line_item_extractor.py\<close>; one model serves both.

  \<^verbatim>\<open>float(item.get("row_total", 0)) for item in line_items\<close>: the items are visited in
  order, and the first one that cannot be read raises.
\<close>

fun row_totals :: "'f float_ops \<Rightarrow> 'f json list \<Rightarrow> pyexc + 'f list" where
  "row_totals ops [] = Inr []"
| "row_totals ops (item # items) =
     (case py_get item ''row_total'' (JInt 0) of
        Inl e \<Rightarrow> Inl e
      | Inr v \<Rightarrow>
          (case py_float ops v of
             Inl e \<Rightarrow> Inl e
           | Inr x \<Rightarrow>
               (case row_totals ops items of
                  Inl e \<Rightarrow> Inl e
                | Inr xs \<Rightarrow> Inr (x # xs))))"

text \<open>
  \<^verbatim>\<open>sum\<close> starts from the integer \<open>0\<close>: without any item the result is that integer, and
  with items it is a float.
\<close>

definition py_sum :: "'f float_ops \<Rightarrow> 'f list \<Rightarrow> 'f pynum" where
  "py_sum ops xs = (if xs = [] then PInt 0 else PFloat (f_sum ops xs))"

text \<open>
  \<^verbatim>\<open>float(fields.get(k, {}).get("value", 0))\<close>, the expression the source writes once for
  each of the four amounts.
\<close>

definition field_number :: "'f float_ops \<Rightarrow> 'f json \<Rightarrow> string \<Rightarrow> pyexc + 'f" where
  "field_number ops fields k =
     (case py_get fields k (JObj []) of
        Inl e \<Rightarrow> Inl e
      | Inr fv \<Rightarrow>
          (case py_get fv ''value'' (JInt 0) of
             Inl e \<Rightarrow> Inl e
           | Inr v \<Rightarrow> py_float ops v))"

text \<open>The body of the \<^verbatim>\<open>try\<close> block: the five numbers, or the first exception.\<close>

definition extract_values ::
  "'f float_ops \<Rightarrow> 'f json \<Rightarrow> 'f json \<Rightarrow> pyexc + ('f pynum \<times> 'f \<times> 'f \<times> 'f \<times> 'f)" where
  "extract_values ops fields line_items =
     (case py_iter line_items of Inl e \<Rightarrow> Inl e | Inr items \<Rightarrow>
      case row_totals ops items of Inl e \<Rightarrow> Inl e | Inr xs \<Rightarrow>
      case field_number ops fields ''subtotal'' of Inl e \<Rightarrow> Inl e | Inr extracted_subtotal \<Rightarrow>
      case field_number ops fields ''gst_amount'' of Inl e \<Rightarrow> Inl e | Inr gst \<Rightarrow>
      case field_number ops fields ''discount'' of Inl e \<Rightarrow> Inl e | Inr discount \<Rightarrow>
      case field_number ops fields ''total'' of Inl e \<Rightarrow> Inl e | Inr extracted_total \<Rightarrow>
        Inr (py_sum ops xs, extracted_subtotal, gst, discount, extracted_total))"

text \<open>
  The report is the dictionary the function returns. \<open>Inl\<close> is an exception that leaves
  the function: the arithmetic stands after the \<^verbatim>\<open>try\<close> block. \<open>exc_str\<close> is the
  interpreter's text of an exception, \<^verbatim>\<open>str(e)\<close>.
\<close>

definition verify_calculations ::
  "'f float_ops \<Rightarrow> (pyexc \<Rightarrow> string) \<Rightarrow> 'f json \<Rightarrow> 'f json \<Rightarrow> pyexc + (string \<times> 'f json) list" where
  "verify_calculations ops exc_str fields line_items =
     (case extract_values ops fields line_items of
        Inl e \<Rightarrow>
          Inr [(''verified'', JBool False),
               (''error'', JStr (''Value extraction error: '' @ exc_str e)),
               (''confidence'', JFloat (f_lit ops ''0.0'')),
               (''error_margin'', JNull)]
      | Inr (subtotal, extracted_subtotal, gst, discount, extracted_total) \<Rightarrow>
          (case as_float ops subtotal of
             Inl e \<Rightarrow> Inl e
           | Inr s \<Rightarrow>
               (let computed_total = f_sub ops (f_add ops s gst) discount;
                    error_margin = f_abs ops (f_sub ops computed_total extracted_total);
                    verified = f_lt ops error_margin (f_lit ops ''1.0'')
                in case f_div ops error_margin (f_add ops extracted_total (f_lit ops ''1e-5'')) of
                     None \<Rightarrow> Inl ZeroDivisionError
                   | Some q \<Rightarrow>
                       (let confidence = pymax ops (f_lit ops ''0.0'') (f_sub ops (f_lit ops ''1.0'') q)
                        in Inr [(''verified'', JBool verified),
                                (''confidence'', JFloat (f_round ops confidence 3)),
                                (''error_margin'', JFloat (f_round ops error_margin 2)),
                                (''extracted_subtotal'', JFloat extracted_subtotal),
                                (''computed_subtotal'', num_json (py_round ops subtotal 2)),
                                (''extracted_total'', JFloat extracted_total),
                                (''computed_total'', JFloat (f_round ops computed_total 2)),
                                (''gst'', JFloat gst),
                                (''discount'', JFloat discount)]))))"

section \<open>The line-item extractor\<close>

text \<open>
  The words are what \<^verbatim>\<open>json.load\<close> returns for an OCR file: a list of values, each of them
  a dictionary with a string under \<^verbatim>\<open>"text"\<close> when the OCR stage wrote the file
  (\<^verbatim>\<open>run_ocr_on_image\<close>). The source does not check that, so the model does not assume it.

  \<^verbatim>\<open>t.isdigit()\<close> and \<^verbatim>\<open>t.replace(",", "")\<close> exist on strings only.
\<close>

fun py_isdigit :: "'f json \<Rightarrow> pyexc + bool" where
  "py_isdigit (JStr s) = Inr (isdigit s)"
| "py_isdigit _ = Inl AttributeError"

fun py_replace_comma :: "'f json \<Rightarrow> pyexc + string" where
  "py_replace_comma (JStr s) = Inr (replace_comma s)"
| "py_replace_comma _ = Inl AttributeError"

text \<open>
  \<^verbatim>\<open>any(c.isdigit() for c in t)\<close>: the elements of \<open>t\<close> are visited in order, up to the first
  one that gives \<^verbatim>\<open>True\<close>.
\<close>

fun any_isdigit_list :: "'f json list \<Rightarrow> pyexc + bool" where
  "any_isdigit_list [] = Inr False"
| "any_isdigit_list (c # cs) =
     (case py_isdigit c of
        Inl e \<Rightarrow> Inl e
      | Inr b \<Rightarrow> if b then Inr True else any_isdigit_list cs)"

definition any_isdigit :: "'f json \<Rightarrow> pyexc + bool" where
  "any_isdigit t = (case py_iter t of Inl e \<Rightarrow> Inl e | Inr cs \<Rightarrow> any_isdigit_list cs)"

text \<open>\<^verbatim>\<open>numbers = [w for w in context if any(c.isdigit() for c in w["text"])]\<close>\<close>

fun numeric_tokens :: "'f json list \<Rightarrow> pyexc + 'f json list" where
  "numeric_tokens [] = Inr []"
| "numeric_tokens (w # ws) =
     (case py_getitem w ''text'' of Inl e \<Rightarrow> Inl e | Inr t \<Rightarrow>
      case any_isdigit t of Inl e \<Rightarrow> Inl e | Inr b \<Rightarrow>
      case numeric_tokens ws of Inl e \<Rightarrow> Inl e | Inr r \<Rightarrow>
        Inr (if b then w # r else r))"

text \<open>\<^verbatim>\<open>[w["text"] for w in ws]\<close>\<close>

fun texts :: "'f json list \<Rightarrow> pyexc + 'f json list" where
  "texts [] = Inr []"
| "texts (w # ws) =
     (case py_getitem w ''text'' of Inl e \<Rightarrow> Inl e | Inr t \<Rightarrow>
      case texts ws of Inl e \<Rightarrow> Inl e | Inr r \<Rightarrow> Inr (t # r))"

text \<open>\<^verbatim>\<open>sep.join(ts)\<close> raises \<^verbatim>\<open>TypeError\<close> unless every element is a string.\<close>

fun strings :: "'f json list \<Rightarrow> string list option" where
  "strings [] = Some []"
| "strings (JStr s # ts) = map_option (Cons s) (strings ts)"
| "strings (_ # ts) = None"

definition py_join :: "string \<Rightarrow> 'f json list \<Rightarrow> pyexc + string" where
  "py_join sep ts = (case strings ts of None \<Rightarrow> Inl TypeError | Some ss \<Rightarrow> Inr (join sep ss))"

text \<open>\<^verbatim>\<open>float(numbers[k]["text"].replace(",", ""))\<close>\<close>

definition token_float :: "'f float_ops \<Rightarrow> 'f json list \<Rightarrow> nat \<Rightarrow> pyexc + 'f" where
  "token_float ops numbers k =
     (case py_index numbers k of Inl e \<Rightarrow> Inl e | Inr w \<Rightarrow>
      case py_getitem w ''text'' of Inl e \<Rightarrow> Inl e | Inr t \<Rightarrow>
      case py_replace_comma t of Inl e \<Rightarrow> Inl e | Inr s \<Rightarrow>
      case f_of_str ops s of None \<Rightarrow> Inl ValueError | Some x \<Rightarrow> Inr x)"

record 'f line_item =
  description :: string
  qty :: 'f
  unit_price :: 'f
  row_total :: 'f
  valid :: bool

text \<open>
  The body of the \<^verbatim>\<open>try\<close> block: the row, or the exception that the \<^verbatim>\<open>except\<close> clause
  swallows. \<^verbatim>\<open>context[1:3]\<close> is \<open>take 2 (drop 1 context)\<close>.
\<close>

definition build_row :: "'f float_ops \<Rightarrow> 'f json list \<Rightarrow> 'f json list \<Rightarrow> pyexc + 'f line_item" where
  "build_row ops context numbers =
     (case texts (take 2 (drop 1 context)) of Inl e \<Rightarrow> Inl e | Inr ts \<Rightarrow>
      case py_join '' '' ts of Inl e \<Rightarrow> Inl e | Inr d \<Rightarrow>
      case token_float ops numbers 1 of Inl e \<Rightarrow> Inl e | Inr q \<Rightarrow>
      case token_float ops numbers 2 of Inl e \<Rightarrow> Inl e | Inr p \<Rightarrow>
      case token_float ops numbers 3 of Inl e \<Rightarrow> Inl e | Inr t \<Rightarrow>
        Inr \<lparr>description = d, qty = q, unit_price = p, row_total = t,
             valid = f_lt ops (f_abs ops (f_sub ops (f_mul ops p q) t)) (f_lit ops ''2.0'')\<rparr>)"

text \<open>
  One round of the \<^verbatim>\<open>for i, word in enumerate(words)\<close> loop, \<open>line_items\<close> being the list
  built so far and \<open>i\<close> a position of \<open>words\<close>; \<^verbatim>\<open>words[i:i+8]\<close> is
  \<open>take 8 (drop i words)\<close>. What raises outside the \<^verbatim>\<open>try\<close> block leaves the function.
\<close>

definition scan_step ::
  "'f float_ops \<Rightarrow> 'f json list \<Rightarrow> nat \<Rightarrow> 'f line_item list \<Rightarrow> pyexc + 'f line_item list" where
  "scan_step ops words i line_items =
     (case py_getitem (words ! i) ''text'' of Inl e \<Rightarrow> Inl e | Inr t \<Rightarrow>
      case py_isdigit t of Inl e \<Rightarrow> Inl e | Inr b \<Rightarrow>
        if b then
          (let context = take 8 (drop i words)
           in case numeric_tokens context of Inl e \<Rightarrow> Inl e | Inr numbers \<Rightarrow>
                if 3 \<le> length numbers then
                  (case build_row ops context numbers of
                     Inr row \<Rightarrow> Inr (line_items @ [row])
                   | Inl e \<Rightarrow> Inr line_items)
                else Inr line_items)
        else Inr line_items)"

fun scan ::
  "'f float_ops \<Rightarrow> 'f json list \<Rightarrow> nat list \<Rightarrow> 'f line_item list \<Rightarrow> pyexc + 'f line_item list" where
  "scan ops words [] line_items = Inr line_items"
| "scan ops words (i # js) line_items =
     (case scan_step ops words i line_items of
        Inl e \<Rightarrow> Inl e
      | Inr line_items' \<Rightarrow> scan ops words js line_items')"

definition extract_line_items_from_ocr ::
  "'f float_ops \<Rightarrow> 'f json list \<Rightarrow> pyexc + 'f line_item list" where
  "extract_line_items_from_ocr ops words = scan ops words [0..<length words] []"

text \<open>
  A word record is a dictionary with a string under \<^verbatim>\<open>"text"\<close>, its text. \<open>word_of s\<close>
  is the record the OCR stage writes for the text \<open>s\<close>, the box and the confidence left
  at \<open>0\<close>.
\<close>

definition is_word :: "'f json \<Rightarrow> bool" where
  "is_word w =
     (case w of
        JObj kvs \<Rightarrow> (case map_of kvs ''text'' of Some (JStr s) \<Rightarrow> True | _ \<Rightarrow> False)
      | _ \<Rightarrow> False)"

definition word_text :: "'f json \<Rightarrow> string" where
  "word_text w =
     (case w of
        JObj kvs \<Rightarrow> (case map_of kvs ''text'' of Some (JStr s) \<Rightarrow> s | _ \<Rightarrow> [])
      | _ \<Rightarrow> [])"

definition word_of :: "string \<Rightarrow> 'f json" where
  "word_of s = JObj [(''text'', JStr s), (''left'', JInt 0), (''top'', JInt 0),
                     (''width'', JInt 0), (''height'', JInt 0), (''conf'', JInt 0)]"

section \<open>The verification driver\<close>

text \<open>
  \<^verbatim>\<open>process_verification\<close> (the same text in \<^verbatim>\<open>verification_engine.py\<close> and in
  \<^verbatim>\<open>line_item_extractor.py\<close>) reads two files and writes one. The file system is a map from
  path to what is stored there: a file holding a JSON value, a file that is no JSON, or a
  directory. Paths are the strings the source builds (\<^verbatim>\<open>Path("output/") / name\<close>);
  \<open>resolve\<close> is the operating system's \<^verbatim>\<open>Path.resolve\<close>, and \<open>stdout\<close> collects what is
  printed. The result pairs the world after the call with the returned value, \<open>Inl\<close> for an
  exception that leaves the function.
\<close>

datatype 'f node = JsonFile "'f json" | OtherFile | Directory

record 'f world =
  files :: "string \<Rightarrow> 'f node option"
  stdout :: "string list"
  resolve :: "string \<Rightarrow> string"

definition exists :: "'f world \<Rightarrow> string \<Rightarrow> bool" where
  "exists w path = (files w path \<noteq> None)"









section \<open>The field extractor\<close>

subsection \<open>Regular expressions\<close>

text \<open>
  The patterns of \<^verbatim>\<open>field_extraction.py\<close> all have one shape: a sequence of items, each a
  character class (a literal character is the class of that character) repeated between a
  lower bound and an optional upper bound, all greedy, with group 1 enclosing the last
  items. A class is a list of code-point ranges. The pattern is parsed by hand into the
  items before the group and the items of the group.

  Under \<^verbatim>\<open>re.IGNORECASE\<close> a character matches a class when it, its lower-case or its
  upper-case form is in the class; the classes of the source hold ASCII characters only.
\<close>

type_synonym cls = "(nat \<times> nat) list"

definition in_cls :: "cls \<Rightarrow> char \<Rightarrow> bool" where
  "in_cls rs c = list_ex (\<lambda>r. fst r \<le> code c \<and> code c \<le> snd r) rs"

definition matches_ignorecase :: "cls \<Rightarrow> char \<Rightarrow> bool" where
  "matches_ignorecase rs c =
     (in_cls rs c \<or> in_cls rs (ascii_lower c) \<or> in_cls rs (ascii_upper c))"

datatype item = Rep cls nat "nat option"

record pattern =
  before :: "item list"
  group1 :: "item list"

fun first_some :: "('a \<Rightarrow> 'b option) \<Rightarrow> 'a list \<Rightarrow> 'b option" where
  "first_some f [] = None"
| "first_some f (x # xs) = (case f x of Some y \<Rightarrow> Some y | None \<Rightarrow> first_some f xs)"

text \<open>
  The numbers of characters a greedy item may take at the front of \<open>s\<close>, in the order
  the matcher tries them: the most first.
\<close>

fun counts :: "item \<Rightarrow> string \<Rightarrow> nat list" where
  "counts (Rep rs lo hi) s =
     (let avail = length (takeWhile (matches_ignorecase rs) s);
          most = (case hi of None \<Rightarrow> avail | Some h \<Rightarrow> min h avail)
      in rev [lo..<Suc most])"

text \<open>
  Matching a sequence of items at the front of \<open>s\<close> with backtracking: the pieces the
  items take in the first way that succeeds.
\<close>

primrec match_items :: "item list \<Rightarrow> string \<Rightarrow> string list option" where
  "match_items [] = (\<lambda>s. Some [])"
| "match_items (it # its) =
     (\<lambda>s. first_some (\<lambda>n. map_option (Cons (take n s)) (match_items its (drop n s)))
                     (counts it s))"

text \<open>The text of group 1 when the pattern matches at the front of \<open>s\<close>.\<close>

definition match_at :: "pattern \<Rightarrow> string \<Rightarrow> string option" where
  "match_at p s =
     map_option (\<lambda>pieces. concat (drop (length (before p)) pieces))
       (match_items (before p @ group1 p) s)"

text \<open>
  \<^verbatim>\<open>re.search(pattern, text, re.IGNORECASE)\<close> followed by \<^verbatim>\<open>match.group(1)\<close>: the leftmost
  position at which the pattern matches, \<open>None\<close> when there is no match.
\<close>

definition re_search :: "pattern \<Rightarrow> string \<Rightarrow> string option" where
  "re_search p s = first_some (\<lambda>k. match_at p (drop k s)) [0..<Suc (length s)]"

text \<open>A literal text; \<^verbatim>\<open>\s\<close>; \<^verbatim>\<open>[A-Za-z0-9\-]\<close>; \<^verbatim>\<open>\s*[:\-]?\s*\<close>.\<close>

definition lit :: "string \<Rightarrow> item list" where
  "lit s = map (\<lambda>c. Rep [(code c, code c)] 1 (Some 1)) s"

definition space_cls :: cls where
  "space_cls = [(9, 13), (28, 32), (133, 133), (160, 160)]"

definition word_cls :: cls where
  "word_cls = [(65, 90), (97, 122), (48, 57), (45, 45)]"

definition sep_tail :: "item list" where
  "sep_tail = [Rep space_cls 0 None, Rep [(58, 58), (45, 45)] 0 (Some 1), Rep space_cls 0 None]"

text \<open>\<^verbatim>\<open>Invoice\s*No\.?\s*[:\-]?\s*([A-Za-z0-9\-]+)\<close>\<close>

definition invoice_number_patterns :: "pattern list" where
  "invoice_number_patterns =
     [\<lparr>before = lit ''Invoice'' @ [Rep space_cls 0 None] @ lit ''No''
                 @ [Rep [(46, 46)] 0 (Some 1)] @ sep_tail,
       group1 = [Rep word_cls 1 None]\<rparr>]"

text \<open>\<^verbatim>\<open>Date\s*[:\-]?\s*([0-9]{2,4}[-/][0-9]{1,2}[-/][0-9]{1,4})\<close>\<close>

definition date_patterns :: "pattern list" where
  "date_patterns =
     [\<lparr>before = lit ''Date'' @ sep_tail,
       group1 = [Rep [(48, 57)] 2 (Some 4), Rep [(45, 45), (47, 47)] 1 (Some 1),
                 Rep [(48, 57)] 1 (Some 2), Rep [(45, 45), (47, 47)] 1 (Some 1),
                 Rep [(48, 57)] 1 (Some 4)]\<rparr>]"

text \<open>\<^verbatim>\<open>GSTIN\s*[:\-]?\s*([0-9A-Z]{15})\<close>\<close>

definition gst_number_patterns :: "pattern list" where
  "gst_number_patterns =
     [\<lparr>before = lit ''GSTIN'' @ sep_tail,
       group1 = [Rep [(48, 57), (65, 90)] 15 (Some 15)]\<rparr>]"

text \<open>\<^verbatim>\<open>PO\s*No\.?\s*[:\-]?\s*([A-Za-z0-9\-]+)\<close>\<close>

definition po_number_patterns :: "pattern list" where
  "po_number_patterns =
     [\<lparr>before = lit ''PO'' @ [Rep space_cls 0 None] @ lit ''No''
                 @ [Rep [(46, 46)] 0 (Some 1)] @ sep_tail,
       group1 = [Rep word_cls 1 None]\<rparr>]"

subsection \<open>Field values\<close>

text \<open>
  The dictionary \<^verbatim>\<open>{"value": ..., "confidence": ..., "present": ...}\<close>; the value is a string
  or \<^verbatim>\<open>None\<close>. The field names carry a prefix because \<open>value\<close> is taken in Isabelle.
\<close>

record 'f field_value =
  fv_value :: "string option"
  fv_confidence :: 'f
  fv_present :: bool

fun extract_field :: "'f float_ops \<Rightarrow> pattern list \<Rightarrow> string \<Rightarrow> string \<Rightarrow> 'f field_value" where
  "extract_field ops [] text field_name =
     \<lparr>fv_value = None, fv_confidence = f_lit ops ''0.0'', fv_present = False\<rparr>"
| "extract_field ops (p # patterns) text field_name =
     (case re_search p text of
        Some g \<Rightarrow>
          \<lparr>fv_value = Some (strip g), fv_confidence = f_lit ops ''0.95'', fv_present = True\<rparr>
      | None \<Rightarrow> extract_field ops patterns text field_name)"

text \<open>The dictionary \<^verbatim>\<open>patterns\<close> of \<^verbatim>\<open>extract_fields_from_text\<close>, in its order.\<close>

definition patterns :: "(string \<times> pattern list) list" where
  "patterns =
     [(''invoice_number'', invoice_number_patterns),
      (''date'', date_patterns),
      (''gst_number'', gst_number_patterns),
      (''po_number'', po_number_patterns)]"

definition extract_fields_from_text ::
  "'f float_ops \<Rightarrow> string \<Rightarrow> (string \<times> 'f field_value) list" where
  "extract_fields_from_text ops text =
     map (\<lambda>(field, pats). (field, extract_field ops pats text field)) patterns"

subsection \<open>Entity fields\<close>








section \<open>Decimal arithmetic, for the examples\<close>

text \<open>
  One choice of the float operations, for the examples: the numbers are the reals and every
  operation is exact. This is not the arithmetic of the interpreter, which rounds every
  result to the nearest double; the two give the same value wherever the operands and the
  exact result are doubles. The examples below stay in that range: their numbers are
  integers or have a fraction that is a multiple of a power of \<open>1/2\<close>. The literal
  \<^verbatim>\<open>1e-5\<close> is no double; in the examples it is added to the total in a divisor whose
  dividend is \<open>0\<close>, or to its own negation, which gives \<open>0\<close> with doubles as well. The
  literals \<^verbatim>\<open>0.95\<close>, \<^verbatim>\<open>0.8\<close> and \<^verbatim>\<open>0.7\<close> are only copied into a result.

  \<open>decimal s\<close> reads an optional minus sign, digits and optionally a point followed by
  digits; \<^verbatim>\<open>float\<close> accepts these strings, and more, and returns the double nearest to
  the value.
\<close>

definition digits_value :: "string \<Rightarrow> nat" where
  "digits_value ds = foldl (\<lambda>v c. 10 * v + (code c - 48)) 0 ds"

definition unsigned_decimal :: "string \<Rightarrow> real option" where
  "unsigned_decimal s =
     (let ds = takeWhile is_decimal s; r = dropWhile is_decimal s
      in if ds = [] then None
         else if r = [] then Some (real (digits_value ds))
         else if hd r = CHR ''.'' \<and> list_all is_decimal (tl r) then
           Some (real (digits_value ds) + real (digits_value (tl r)) / 10 ^ length (tl r))
         else None)"

definition decimal :: "string \<Rightarrow> real option" where
  "decimal s =
     (case s of
        [] \<Rightarrow> None
      | c # r \<Rightarrow> if c = CHR ''-'' then map_option uminus (unsigned_decimal r)
                 else unsigned_decimal s)"

definition round_half_even :: "real \<Rightarrow> int" where
  "round_half_even x =
     (let f = \<lfloor>x\<rfloor>; d = x - of_int f
      in if d < 1 / 2 then f
         else if 1 / 2 < d then f + 1
         else if even f then f else f + 1)"

definition exact_ops :: "real float_ops" where
  "exact_ops =
     FloatOps
       (\<lambda>s. if s = ''1e-5'' then 1 / 100000 else (case decimal s of None \<Rightarrow> 0 | Some x \<Rightarrow> x))
       (\<lambda>n. Some (of_int n))
       decimal
       (\<lambda>xs. foldl (+) 0 xs)
       (+)
       (-)
       (*)
       (\<lambda>a b. if b = 0 then None else Some (a / b))
       abs
       (<)
       (\<lambda>x n. of_int (round_half_even (x * 10 ^ n)) / 10 ^ n)"

section \<open>Properties of the verification engine\<close>

lemmas decimal_defs =
  decimal_def unsigned_decimal_def digits_value_def is_decimal_def code_def

lemma decimal_examples:
  "decimal ''0'' = Some 0" "decimal ''54'' = Some 54" "decimal ''300'' = Some 300"
  "decimal ''354'' = Some 354" "decimal ''N/A'' = None"
  "decimal ''0.0'' = Some 0" "decimal ''1.0'' = Some 1" "decimal ''2.0'' = Some 2"
  "decimal ''-0.00001'' = Some (- 1 / 100000)"
  by (simp_all add: decimal_defs)

lemma exact_ops_simps:
  "f_lit exact_ops ''0.0'' = 0" "f_lit exact_ops ''1.0'' = 1" "f_lit exact_ops ''2.0'' = 2"
  "f_lit exact_ops ''1e-5'' = 1 / 100000"
  "f_of_int exact_ops n = Some (of_int n)"
  "f_of_str exact_ops = decimal"
  "f_sum exact_ops xs = foldl (+) 0 xs"
  "f_add exact_ops a b = a + b" "f_sub exact_ops a b = a - b" "f_mul exact_ops a b = a * b"
  "f_div exact_ops a b = (if b = 0 then None else Some (a / b))"
  "f_abs exact_ops a = \<bar>a\<bar>" "f_lt exact_ops a b = (a < b)"
  "f_round exact_ops x k = of_int (round_half_even (x * 10 ^ k)) / 10 ^ k"
  by (simp_all add: exact_ops_def decimal_examples)

lemmas engine_defs =
  verify_calculations_def extract_values_def field_number_def py_sum_def as_float_def
  py_round_def num_json_def pymax_def round_half_even_def Let_def

lemma field_number_fails:
  assumes "map_of fieldset k = Some (JObj fv)" and "map_of fv ''value'' = Some v"
      and "v = JNull \<or> (\<exists>s. v = JStr s \<and> f_of_str ops s = None)
           \<or> (\<exists>xs. v = JArr xs) \<or> (\<exists>kvs. v = JObj kvs)"
  shows "isl (field_number ops (JObj fieldset) k)"
  using assms by (auto simp: field_number_def)

lemma field_number_not_dict:
  assumes "map_of fieldset k = Some fvj" and "\<forall>fv. fvj \<noteq> JObj fv"
  shows "field_number ops (JObj fieldset) k = Inl AttributeError"
  using assms by (cases fvj) (simp_all add: field_number_def)

lemma field_number_missing:
  assumes "map_of fieldset k = None \<or> (map_of fieldset k = Some (JObj fv) \<and> map_of fv ''value'' = None)"
  shows "field_number ops (JObj fieldset) k = py_float ops (JInt 0)"
  using assms by (auto simp: field_number_def)

lemma extract_values_fails:
  assumes "k \<in> {''subtotal'', ''gst_amount'', ''discount'', ''total''}"
      and "isl (field_number ops fieldset k)"
  shows "isl (extract_values ops fieldset line_items)"
  using assms by (auto simp: extract_values_def isl_def split: sum.splits)

lemma verify_calculations_Inl:
  "extract_values ops fieldset line_items = Inl e \<Longrightarrow>
   verify_calculations ops exc_str fieldset line_items =
     Inr [(''verified'', JBool False),
          (''error'', JStr (''Value extraction error: '' @ exc_str e)),
          (''confidence'', JFloat (f_lit ops ''0.0'')),
          (''error_margin'', JNull)]"
  by (simp add: verify_calculations_def)

lemma verify_calculations_Inr:
  "extract_values ops fieldset line_items = Inr (n, es, g, d, t) \<Longrightarrow>
   verify_calculations ops exc_str fieldset line_items =
     (case as_float ops n of
        Inl e \<Rightarrow> Inl e
      | Inr s \<Rightarrow>
     (case f_div ops (f_abs ops (f_sub ops (f_sub ops (f_add ops s g) d) t))
             (f_add ops t (f_lit ops ''1e-5'')) of
        None \<Rightarrow> Inl ZeroDivisionError
      | Some q \<Rightarrow>
          Inr [(''verified'',
                  JBool (f_lt ops (f_abs ops (f_sub ops (f_sub ops (f_add ops s g) d) t))
                           (f_lit ops ''1.0''))),
               (''confidence'',
                  JFloat (f_round ops (pymax ops (f_lit ops ''0.0'')
                                         (f_sub ops (f_lit ops ''1.0'') q)) 3)),
               (''error_margin'',
                  JFloat (f_round ops (f_abs ops (f_sub ops (f_sub ops (f_add ops s g) d) t)) 2)),
               (''extracted_subtotal'', JFloat es),
               (''computed_subtotal'', num_json (py_round ops n 2)),
               (''extracted_total'', JFloat t),
               (''computed_total'', JFloat (f_round ops (f_sub ops (f_add ops s g) d) 2)),
               (''gst'', JFloat g),
               (''discount'', JFloat d)]))"
  by (simp add: verify_calculations_def Let_def split: sum.splits option.splits)

subsection \<open>C1: a value that cannot be coerced gives the failure record\<close>

theorem verify_calculations_missing_field_counterexample:
  "map_of [(''gst_amount'', JObj [(''value'', JStr ''54'')]),
           (''total'', JObj [(''value'', JStr ''354'')])] ''subtotal'' = None
   \<and> map_of [(''gst_amount'', JObj [(''value'', JStr ''54'')]),
             (''total'', JObj [(''value'', JStr ''354'')])] ''discount'' = None
   \<and> verify_calculations exact_ops (\<lambda>e. [])
       (JObj [(''gst_amount'', JObj [(''value'', JStr ''54'')]),
              (''total'', JObj [(''value'', JStr ''354'')])])
       (JArr [JObj [(''row_total'', JFloat 300)]]) =
     Inr [(''verified'', JBool True),
          (''confidence'', JFloat 1),
          (''error_margin'', JFloat 0),
          (''extracted_subtotal'', JFloat 0),
          (''computed_subtotal'', JFloat 300),
          (''extracted_total'', JFloat 354),
          (''computed_total'', JFloat 354),
          (''gst'', JFloat 54),
          (''discount'', JFloat 0)]"
  by (simp add: engine_defs exact_ops_simps decimal_examples)


lemma field_number_default:
  assumes "map_of fieldset k = None
           \<or> (map_of fieldset k = Some (JObj fv) \<and> map_of fv ''value'' = None)"
  shows "field_number ops (JObj ((k, JObj [(''value'', JInt 0)]) # fieldset)) k' =
         field_number ops (JObj fieldset) k'"
  using assms by (auto simp: field_number_def)

lemma extract_values_default:
  assumes "map_of fieldset k = None
           \<or> (map_of fieldset k = Some (JObj fv) \<and> map_of fv ''value'' = None)"
  shows "extract_values ops (JObj ((k, JObj [(''value'', JInt 0)]) # fieldset)) line_items =
         extract_values ops (JObj fieldset) line_items"
  unfolding extract_values_def field_number_default[OF assms] by (rule refl)

text \<open>
  C1, amended: let \<open>k\<close> be one of \<^verbatim>\<open>subtotal\<close>, \<^verbatim>\<open>gst_amount\<close>, \<^verbatim>\<open>discount\<close>, \<^verbatim>\<open>total\<close>.
  For every field set in which \<open>k\<close> is present with a \<^verbatim>\<open>value\<close> that \<^verbatim>\<open>float\<close> rejects
  (null, a string that \<^verbatim>\<open>float\<close> does not parse, a list or an object), and for every
  line-item argument, \<^verbatim>\<open>verify_calculations\<close> returns the failure record: \<^verbatim>\<open>verified\<close>
  false, an \<^verbatim>\<open>error\<close> message that starts with \<^verbatim>\<open>Value extraction error: \<close>,
  \<^verbatim>\<open>confidence\<close> 0.0 and \<^verbatim>\<open>error_margin\<close> null. A field that is missing, or present
  without a \<^verbatim>\<open>value\<close> entry, is not a failure: it is read as the integer 0, the result
  being the one for the field set in which \<open>k\<close> holds the value 0.
\<close>

theorem verify_calculations_failure_record:
  assumes "k \<in> {''subtotal'', ''gst_amount'', ''discount'', ''total''}"
  shows "(map_of fieldset k = Some (JObj fv) \<and> map_of fv ''value'' = Some v
          \<and> (v = JNull \<or> (\<exists>s. v = JStr s \<and> f_of_str ops s = None)
               \<or> (\<exists>xs. v = JArr xs) \<or> (\<exists>kvs. v = JObj kvs))
          \<longrightarrow> (\<exists>e. verify_calculations ops exc_str (JObj fieldset) line_items =
                     Inr [(''verified'', JBool False),
                          (''error'', JStr (''Value extraction error: '' @ exc_str e)),
                          (''confidence'', JFloat (f_lit ops ''0.0'')),
                          (''error_margin'', JNull)]))
       \<and> (map_of fieldset k = None
            \<or> (map_of fieldset k = Some (JObj fv) \<and> map_of fv ''value'' = None)
          \<longrightarrow> verify_calculations ops exc_str (JObj fieldset) line_items =
              verify_calculations ops exc_str
                (JObj ((k, JObj [(''value'', JInt 0)]) # fieldset)) line_items)"
proof (intro conjI impI)
  assume a: "map_of fieldset k = Some (JObj fv) \<and> map_of fv ''value'' = Some v
          \<and> (v = JNull \<or> (\<exists>s. v = JStr s \<and> f_of_str ops s = None)
               \<or> (\<exists>xs. v = JArr xs) \<or> (\<exists>kvs. v = JObj kvs))"
  then have "isl (field_number ops (JObj fieldset) k)"
    by (intro field_number_fails[of fieldset k fv v]) simp_all
  with assms have "isl (extract_values ops (JObj fieldset) line_items)"
    by (rule extract_values_fails)
  then obtain e where "extract_values ops (JObj fieldset) line_items = Inl e"
    by (cases "extract_values ops (JObj fieldset) line_items") auto
  then show "\<exists>e. verify_calculations ops exc_str (JObj fieldset) line_items =
                     Inr [(''verified'', JBool False),
                          (''error'', JStr (''Value extraction error: '' @ exc_str e)),
                          (''confidence'', JFloat (f_lit ops ''0.0'')),
                          (''error_margin'', JNull)]"
    by (auto simp: verify_calculations_Inl)
next
  assume b: "map_of fieldset k = None
            \<or> (map_of fieldset k = Some (JObj fv) \<and> map_of fv ''value'' = None)"
  show "verify_calculations ops exc_str (JObj fieldset) line_items =
        verify_calculations ops exc_str (JObj ((k, JObj [(''value'', JInt 0)]) # fieldset)) line_items"
    unfolding verify_calculations_def extract_values_default[OF b] by (rule refl)
qed

theorem verify_calculations_failure_record_witness:
  "(\<exists>e. verify_calculations exact_ops (\<lambda>e. ''could not convert string to float'')
          (JObj [(''subtotal'', JObj [(''value'', JStr ''300'')]),
                 (''gst_amount'', JObj [(''value'', JStr ''54'')]),
                 (''discount'', JObj [(''value'', JStr ''0'')]),
                 (''total'', JObj [(''value'', JStr ''N/A''), (''confidence'', JFloat 0),
                                   (''present'', JBool True)])])
          (JArr [JObj [(''row_total'', JFloat 300)]]) =
        Inr [(''verified'', JBool False),
             (''error'', JStr (''Value extraction error: ''
                               @ (\<lambda>e. ''could not convert string to float'') e)),
             (''confidence'', JFloat (f_lit exact_ops ''0.0'')),
             (''error_margin'', JNull)])
   \<and> verify_calculations exact_ops (\<lambda>e. [])
       (JObj [(''gst_amount'', JObj [(''value'', JStr ''54'')]),
              (''discount'', JObj [(''confidence'', JFloat 0)]),
              (''total'', JObj [(''value'', JStr ''354'')])])
       (JArr [JObj [(''row_total'', JFloat 300)]]) =
     verify_calculations exact_ops (\<lambda>e. [])
       (JObj [(''discount'', JObj [(''value'', JInt 0)]),
              (''gst_amount'', JObj [(''value'', JStr ''54'')]),
              (''discount'', JObj [(''confidence'', JFloat 0)]),
              (''total'', JObj [(''value'', JStr ''354'')])])
       (JArr [JObj [(''row_total'', JFloat 300)]])
   \<and> verify_calculations exact_ops (\<lambda>e. [])
       (JObj [(''gst_amount'', JObj [(''value'', JStr ''54'')]),
              (''discount'', JObj [(''confidence'', JFloat 0)]),
              (''total'', JObj [(''value'', JStr ''354'')])])
       (JArr [JObj [(''row_total'', JFloat 300)]]) =
     verify_calculations exact_ops (\<lambda>e. [])
       (JObj [(''subtotal'', JObj [(''value'', JInt 0)]),
              (''gst_amount'', JObj [(''value'', JStr ''54'')]),
              (''discount'', JObj [(''confidence'', JFloat 0)]),
              (''total'', JObj [(''value'', JStr ''354'')])])
       (JArr [JObj [(''row_total'', JFloat 300)]])"
  using
    verify_calculations_failure_record
      [of "''total''"
          "[(''subtotal'', JObj [(''value'', JStr ''300'')]),
            (''gst_amount'', JObj [(''value'', JStr ''54'')]),
            (''discount'', JObj [(''value'', JStr ''0'')]),
            (''total'', JObj [(''value'', JStr ''N/A''), (''confidence'', JFloat 0),
                              (''present'', JBool True)])]"
          "[(''value'', JStr ''N/A''), (''confidence'', JFloat 0), (''present'', JBool True)]"
          "JStr ''N/A''" exact_ops "\<lambda>e. ''could not convert string to float''"
          "JArr [JObj [(''row_total'', JFloat 300)]]"]
    verify_calculations_failure_record
      [of "''discount''"
          "[(''gst_amount'', JObj [(''value'', JStr ''54'')]),
            (''discount'', JObj [(''confidence'', JFloat 0)]),
            (''total'', JObj [(''value'', JStr ''354'')])]"
          "[(''confidence'', JFloat 0)]" "JNull" exact_ops "\<lambda>e. []"
          "JArr [JObj [(''row_total'', JFloat 300)]]"]
    verify_calculations_failure_record
      [of "''subtotal''"
          "[(''gst_amount'', JObj [(''value'', JStr ''54'')]),
            (''discount'', JObj [(''confidence'', JFloat 0)]),
            (''total'', JObj [(''value'', JStr ''354'')])]"
          "[]" "JNull" exact_ops "\<lambda>e. []"
          "JArr [JObj [(''row_total'', JFloat 300)]]"]
  by (simp add: exact_ops_simps decimal_examples)


subsection \<open>C2: the success record\<close>

lemma row_totals_list_all2:
  "list_all2 (\<lambda>item x. \<exists>kvs. item = JObj kvs
                 \<and> py_float ops (case map_of kvs ''row_total'' of None \<Rightarrow> JInt 0 | Some v \<Rightarrow> v)
                     = Inr x) items xs
   \<Longrightarrow> row_totals ops items = Inr xs"
  by (induction items xs rule: list_all2_induct) auto

text \<open>
  C2 as the specification states it: the report holds \<^verbatim>\<open>computed_subtotal\<close>, the sum of the
  row totals, \<^verbatim>\<open>computed_total = computed_subtotal + gst - discount\<close> and
  \<^verbatim>\<open>error_margin = |computed_total - extracted_total|\<close>. The source rounds what it reports:
  for the single row total \<open>100.001953125\<close> (\<open>100 + 2\<^sup>-\<^sup>9\<close>) and the same extracted
  total the report holds \<open>100.0\<close> for \<^verbatim>\<open>computed_subtotal\<close> and for \<^verbatim>\<open>computed_total\<close>,
  which is neither the sum nor at distance \<^verbatim>\<open>error_margin\<close> \<open>0.0\<close> from the extracted total.
\<close>

theorem verify_calculations_rounding_counterexample:
  "verify_calculations exact_ops (\<lambda>e. [])
     (JObj [(''total'', JObj [(''value'', JFloat (100 + 1 / 512))])])
     (JArr [JObj [(''row_total'', JFloat (100 + 1 / 512))]]) =
   Inr [(''verified'', JBool True),
        (''confidence'', JFloat 1),
        (''error_margin'', JFloat 0),
        (''extracted_subtotal'', JFloat 0),
        (''computed_subtotal'', JFloat 100),
        (''extracted_total'', JFloat (100 + 1 / 512)),
        (''computed_total'', JFloat 100),
        (''gst'', JFloat 0),
        (''discount'', JFloat 0)]
   \<and> f_sum exact_ops [100 + 1 / 512] = 100 + 1 / 512
   \<and> f_abs exact_ops (f_sub exact_ops 100 (100 + 1 / 512)) = 1 / 512"
  by (simp add: engine_defs exact_ops_simps)

text \<open>
  The division for the confidence stands after the \<^verbatim>\<open>try\<close> block: for the extracted total
  \<^verbatim>\<open>-0.00001\<close> the divisor is \<open>0\<close> and \<^verbatim>\<open>ZeroDivisionError\<close> leaves the function.
\<close>

lemma verify_calculations_zero_division:
  "verify_calculations exact_ops (\<lambda>e. [])
     (JObj [(''total'', JObj [(''value'', JStr ''-0.00001'')])]) (JArr []) =
   Inl ZeroDivisionError"
  by (simp add: engine_defs exact_ops_simps decimal_examples)

text \<open>
  C2, amended: let every line item be a dictionary whose \<^verbatim>\<open>row_total\<close> (\<open>0\<close> when the
  entry is missing) coerces, \<open>xs\<close> being the floats in order, and let the four fields coerce
  to \<open>es\<close> (subtotal), \<open>g\<close>, \<open>d\<close> and \<open>t\<close> (total). Let \<open>s\<close> be \<^verbatim>\<open>float(0)\<close> when there is
  no line item and \<^verbatim>\<open>sum\<close> of \<open>xs\<close> otherwise, and let the division of
  \<open>m = |s + g - d - t|\<close> by \<open>t + 1e-5\<close> be defined, \<open>q\<close> being the quotient, all in float
  arithmetic. Then \<^verbatim>\<open>verify_calculations\<close> returns the success record: \<^verbatim>\<open>verified\<close> is
  \<open>m < 1.0\<close>, on the margin that is not rounded; \<^verbatim>\<open>confidence\<close> is \<open>max(0.0, 1.0 - q)\<close>
  rounded to 3 decimals; \<^verbatim>\<open>error_margin\<close> is \<open>m\<close> rounded to 2 decimals;
  \<^verbatim>\<open>computed_subtotal\<close> is the integer \<open>0\<close> when there is no line item and the sum rounded
  to 2 decimals otherwise; \<^verbatim>\<open>computed_total\<close> is \<open>s + g - d\<close> rounded to 2 decimals;
  \<^verbatim>\<open>extracted_subtotal\<close>, \<^verbatim>\<open>extracted_total\<close>, \<^verbatim>\<open>gst\<close> and \<^verbatim>\<open>discount\<close> are \<open>es\<close>,
  \<open>t\<close>, \<open>g\<close> and \<open>d\<close>.
\<close>

theorem verify_calculations_success_record:
  assumes rows: "list_all2 (\<lambda>item x. \<exists>kvs. item = JObj kvs
                    \<and> py_float ops (case map_of kvs ''row_total'' of None \<Rightarrow> JInt 0
                                      | Some v \<Rightarrow> v) = Inr x) items xs"
      and es: "field_number ops (JObj fieldset) ''subtotal'' = Inr es"
      and g: "field_number ops (JObj fieldset) ''gst_amount'' = Inr g"
      and d: "field_number ops (JObj fieldset) ''discount'' = Inr d"
      and t: "field_number ops (JObj fieldset) ''total'' = Inr t"
      and s: "(xs = [] \<and> f_of_int ops 0 = Some s) \<or> (xs \<noteq> [] \<and> s = f_sum ops xs)"
      and q: "f_div ops (f_abs ops (f_sub ops (f_sub ops (f_add ops s g) d) t))
                (f_add ops t (f_lit ops ''1e-5'')) = Some q"
  shows "verify_calculations ops exc_str (JObj fieldset) (JArr items) =
           Inr [(''verified'',
                   JBool (f_lt ops (f_abs ops (f_sub ops (f_sub ops (f_add ops s g) d) t))
                            (f_lit ops ''1.0''))),
                (''confidence'',
                   JFloat (f_round ops
                             (if f_lt ops (f_lit ops ''0.0'') (f_sub ops (f_lit ops ''1.0'') q)
                              then f_sub ops (f_lit ops ''1.0'') q else f_lit ops ''0.0'') 3)),
                (''error_margin'',
                   JFloat (f_round ops
                             (f_abs ops (f_sub ops (f_sub ops (f_add ops s g) d) t)) 2)),
                (''extracted_subtotal'', JFloat es),
                (''computed_subtotal'',
                   (if xs = [] then JInt 0 else JFloat (f_round ops (f_sum ops xs) 2))),
                (''extracted_total'', JFloat t),
                (''computed_total'', JFloat (f_round ops (f_sub ops (f_add ops s g) d) 2)),
                (''gst'', JFloat g),
                (''discount'', JFloat d)]"
proof -
  have ev: "extract_values ops (JObj fieldset) (JArr items) = Inr (py_sum ops xs, es, g, d, t)"
    by (simp add: extract_values_def row_totals_list_all2[OF rows] es g d t)
  have af: "as_float ops (py_sum ops xs) = Inr s"
    using s by (auto simp: as_float_def py_sum_def)
  have cs: "num_json (py_round ops (py_sum ops xs) 2) =
            (if xs = [] then JInt 0 else JFloat (f_round ops (f_sum ops xs) 2))"
    by (simp add: num_json_def py_round_def py_sum_def)
  show ?thesis
    unfolding verify_calculations_Inr[OF ev] af
    by (simp add: q cs pymax_def)
qed

theorem verify_calculations_success_record_witness:
  "verify_calculations exact_ops (\<lambda>e. [])
     (JObj [(''subtotal'', JObj [(''value'', JStr ''300'')]),
            (''gst_amount'', JObj [(''value'', JStr ''54'')]),
            (''discount'', JObj [(''value'', JStr ''0'')]),
            (''total'', JObj [(''value'', JStr ''354'')])])
     (JArr [JObj [(''row_total'', JFloat 100)], JObj [(''row_total'', JFloat 200)]]) =
   Inr [(''verified'', JBool True),
        (''confidence'', JFloat 1),
        (''error_margin'', JFloat 0),
        (''extracted_subtotal'', JFloat 300),
        (''computed_subtotal'', JFloat 300),
        (''extracted_total'', JFloat 354),
        (''computed_total'', JFloat 354),
        (''gst'', JFloat 54),
        (''discount'', JFloat 0)]
   \<and> verify_calculations exact_ops (\<lambda>e. [])
     (JObj [(''subtotal'', JObj [(''value'', JStr ''0'')]),
            (''gst_amount'', JObj [(''value'', JStr ''54'')]),
            (''discount'', JObj [(''value'', JStr ''0'')]),
            (''total'', JObj [(''value'', JStr ''54'')])])
     (JArr []) =
   Inr [(''verified'', JBool True),
        (''confidence'', JFloat 1),
        (''error_margin'', JFloat 0),
        (''extracted_subtotal'', JFloat 0),
        (''computed_subtotal'', JInt 0),
        (''extracted_total'', JFloat 54),
        (''computed_total'', JFloat 54),
        (''gst'', JFloat 54),
        (''discount'', JFloat 0)]"
  using
    verify_calculations_success_record
      [of exact_ops "[JObj [(''row_total'', JFloat 100)], JObj [(''row_total'', JFloat 200)]]"
          "[100, 200]"
          "[(''subtotal'', JObj [(''value'', JStr ''300'')]),
            (''gst_amount'', JObj [(''value'', JStr ''54'')]),
            (''discount'', JObj [(''value'', JStr ''0'')]),
            (''total'', JObj [(''value'', JStr ''354'')])]"
          300 54 0 354 300 0 "\<lambda>e. []"]
    verify_calculations_success_record
      [of exact_ops "[]" "[]"
          "[(''subtotal'', JObj [(''value'', JStr ''0'')]),
            (''gst_amount'', JObj [(''value'', JStr ''54'')]),
            (''discount'', JObj [(''value'', JStr ''0'')]),
            (''total'', JObj [(''value'', JStr ''54'')])]"
          0 54 0 54 0 0 "\<lambda>e. []"]
  by (simp add: field_number_def exact_ops_simps decimal_examples round_half_even_def)


subsection \<open>C10: the extracted subtotal does not influence the verdict\<close>

lemma field_number_cong:
  "map_of f1 k = map_of f2 k \<Longrightarrow> field_number ops (JObj f1) k = field_number ops (JObj f2) k"
  by (simp add: field_number_def)

lemma extract_values_subtotal:
  assumes g: "field_number ops fields1 ''gst_amount'' = field_number ops fields2 ''gst_amount''"
      and d: "field_number ops fields1 ''discount'' = field_number ops fields2 ''discount''"
      and t: "field_number ops fields1 ''total'' = field_number ops fields2 ''total''"
      and s1: "field_number ops fields1 ''subtotal'' = Inr a"
      and s2: "field_number ops fields2 ''subtotal'' = Inr b"
  shows "(\<exists>e. extract_values ops fields1 line_items = Inl e
             \<and> extract_values ops fields2 line_items = Inl e)
       \<or> (\<exists>s g d t. extract_values ops fields1 line_items = Inr (s, a, g, d, t)
                  \<and> extract_values ops fields2 line_items = Inr (s, b, g, d, t))"
  unfolding extract_values_def s1 s2 g d t
  by (simp split: sum.splits)

text \<open>
  C10: for two field sets that agree on every key but \<^verbatim>\<open>subtotal\<close>, whose \<^verbatim>\<open>subtotal\<close>
  both coerce, and any line-item argument, the two runs end alike (the same exception, or
  two reports) and the reports agree on every key but \<^verbatim>\<open>extracted_subtotal\<close>: on
  \<^verbatim>\<open>verified\<close>, \<^verbatim>\<open>confidence\<close>, \<^verbatim>\<open>error_margin\<close>, \<^verbatim>\<open>computed_subtotal\<close>,
  \<^verbatim>\<open>computed_total\<close>, \<^verbatim>\<open>gst\<close>, \<^verbatim>\<open>discount\<close> and the rest. This holds whatever the float
  operations are.
\<close>

theorem verify_calculations_subtotal_independent:
  assumes agree: "\<forall>k. k \<noteq> ''subtotal'' \<longrightarrow> map_of fields1 k = map_of fields2 k"
      and s1: "field_number ops (JObj fields1) ''subtotal'' = Inr a"
      and s2: "field_number ops (JObj fields2) ''subtotal'' = Inr b"
  shows "rel_sum (=)
           (\<lambda>r1 r2. \<forall>key. key \<noteq> ''extracted_subtotal'' \<longrightarrow> map_of r1 key = map_of r2 key)
           (verify_calculations ops exc_str (JObj fields1) line_items)
           (verify_calculations ops exc_str (JObj fields2) line_items)"
proof -
  have g: "field_number ops (JObj fields1) ''gst_amount'' =
           field_number ops (JObj fields2) ''gst_amount''"
    using agree by (intro field_number_cong) simp
  have d: "field_number ops (JObj fields1) ''discount'' =
           field_number ops (JObj fields2) ''discount''"
    using agree by (intro field_number_cong) simp
  have t: "field_number ops (JObj fields1) ''total'' = field_number ops (JObj fields2) ''total''"
    using agree by (intro field_number_cong) simp
  from extract_values_subtotal[OF g d t s1 s2, of line_items]
  consider (fail) e where "extract_values ops (JObj fields1) line_items = Inl e"
                          "extract_values ops (JObj fields2) line_items = Inl e"
    | (ok) s g d t where "extract_values ops (JObj fields1) line_items = Inr (s, a, g, d, t)"
                         "extract_values ops (JObj fields2) line_items = Inr (s, b, g, d, t)"
    by blast
  then show ?thesis
  proof cases
    case fail
    then show ?thesis by (simp add: verify_calculations_Inl)
  next
    case ok
    show ?thesis
    proof (cases "as_float ops s")
      case (Inl e)
      then show ?thesis
        unfolding verify_calculations_Inr[OF ok(1)] verify_calculations_Inr[OF ok(2)] by simp
    next
      case (Inr x)
      show ?thesis
        unfolding verify_calculations_Inr[OF ok(1)] verify_calculations_Inr[OF ok(2)] Inr
        by (cases "f_div ops (f_abs ops (f_sub ops (f_sub ops (f_add ops x g) d) t))
                     (f_add ops t (f_lit ops ''1e-5''))") simp_all
    qed
  qed
qed

theorem verify_calculations_subtotal_independent_witness:
  "rel_sum (=)
     (\<lambda>r1 r2. \<forall>key. key \<noteq> ''extracted_subtotal'' \<longrightarrow> map_of r1 key = map_of r2 key)
     (verify_calculations exact_ops (\<lambda>e. [])
        (JObj [(''subtotal'', JObj [(''value'', JStr ''300'')]),
               (''total'', JObj [(''value'', JStr ''354'')])])
        (JArr [JObj [(''row_total'', JFloat 300)]]))
     (verify_calculations exact_ops (\<lambda>e. [])
        (JObj [(''subtotal'', JObj [(''value'', JStr ''0'')]),
               (''total'', JObj [(''value'', JStr ''354'')])])
        (JArr [JObj [(''row_total'', JFloat 300)]]))"
proof -
  have h1: "\<forall>k. k \<noteq> ''subtotal'' \<longrightarrow>
              map_of [(''subtotal'', JObj [(''value'', JStr ''300'')]),
                      (''total'', JObj [(''value'', JStr ''354'')])] k =
              map_of [(''subtotal'', (JObj [(''value'', JStr ''0'')] :: real json)),
                      (''total'', JObj [(''value'', JStr ''354'')])] k"
    by simp
  have h2: "field_number exact_ops
              (JObj [(''subtotal'', JObj [(''value'', JStr ''300'')]),
                     (''total'', JObj [(''value'', JStr ''354'')])]) ''subtotal'' = Inr 300"
    by (simp add: field_number_def exact_ops_simps decimal_examples)
  have h3: "field_number exact_ops
              (JObj [(''subtotal'', JObj [(''value'', JStr ''0'')]),
                     (''total'', JObj [(''value'', JStr ''354'')])]) ''subtotal'' = Inr 0"
    by (simp add: field_number_def exact_ops_simps decimal_examples)
  show ?thesis by (rule verify_calculations_subtotal_independent[OF h1 h2 h3])
qed

section \<open>Properties of the line-item extractor\<close>

lemma is_wordE:
  assumes "is_word w"
  obtains kvs where "w = JObj kvs" and "map_of kvs ''text'' = Some (JStr (word_text w))"
  using assms
  by (auto simp: is_word_def word_text_def split: json.splits option.splits)

lemma word_getitem: "is_word w \<Longrightarrow> py_getitem w ''text'' = Inr (JStr (word_text w))"
  by (erule is_wordE) simp

lemma any_isdigit_list_chars:
  "any_isdigit_list (map (\<lambda>c. JStr [c]) s) = Inr (list_ex char_isdigit s)"
  by (induction s) (simp_all add: isdigit_def)

lemma any_isdigit_str: "any_isdigit (JStr s) = Inr (has_digit s)"
  by (simp add: any_isdigit_def has_digit_def any_isdigit_list_chars)

lemma numeric_tokens_words:
  "list_all is_word ws \<Longrightarrow>
   numeric_tokens ws = Inr (filter (\<lambda>w. has_digit (word_text w)) ws)"
  by (induction ws) (simp_all add: word_getitem any_isdigit_str)

lemma texts_words:
  "list_all is_word ws \<Longrightarrow> texts ws = Inr (map (\<lambda>w. JStr (word_text w)) ws)"
  by (induction ws) (simp_all add: word_getitem)

lemma strings_words: "strings (map (\<lambda>w. JStr (word_text w)) ws) = Some (map word_text ws)"
  by (induction ws) simp_all

lemma description_words:
  "list_all is_word ws \<Longrightarrow>
   (case texts ws of Inl e \<Rightarrow> Inl e | Inr ts \<Rightarrow> py_join sep ts) = Inr (join sep (map word_text ws))"
  by (simp add: texts_words py_join_def strings_words)

lemma token_float_words:
  assumes "list_all is_word numbers" and "k < length numbers"
  shows "token_float ops numbers k =
           (case f_of_str ops (filter (\<lambda>c. c \<noteq> CHR '','') (word_text (numbers ! k))) of
              None \<Rightarrow> Inl ValueError
            | Some x \<Rightarrow> Inr x)"
proof -
  from assms have "is_word (numbers ! k)" by (simp add: list_all_length)
  then show ?thesis
    using assms(2) by (simp add: token_float_def py_index_def word_getitem replace_comma_def)
qed

lemma token_float_range: "length numbers \<le> k \<Longrightarrow> token_float ops numbers k = Inl IndexError"
  by (simp add: token_float_def py_index_def)

lemma scan_step_append:
  "scan_step ops words i acc = map_sum id ((@) acc) (scan_step ops words i [])"
  by (simp add: scan_step_def Let_def split: sum.splits)

lemma join_context:
  assumes "4 \<le> length ws"
  shows "join '' '' (map word_text (take 2 (drop 1 ws))) =
           word_text (ws ! 1) @ '' '' @ word_text (ws ! 2)"
proof -
  from assms obtain a r1 where 1: "ws = a # r1" by (cases ws) auto
  with assms obtain b r2 where 2: "r1 = b # r2" by (cases r1) auto
  with 1 assms obtain c r3 where 3: "r2 = c # r3" by (cases r2) auto
  show ?thesis by (simp add: 1 2 3)
qed

lemma window_words: "list_all is_word words \<Longrightarrow> list_all is_word (take n (drop i words))"
  by (auto simp: list_all_iff dest: in_set_takeD in_set_dropD)

text \<open>One round on word records: what the round adds to the list.\<close>

lemma scan_step_words:
  assumes wf: "list_all is_word words" and i: "i < length words"
  shows "\<exists>rows. length rows \<le> 1 \<and> (\<forall>acc. scan_step ops words i acc = Inr (acc @ rows))"
proof -
  let ?ctx = "take 8 (drop i words)"
  have w: "py_getitem (words ! i) ''text'' = Inr (JStr (word_text (words ! i)))"
    using wf i by (simp add: list_all_length word_getitem)
  have n: "numeric_tokens ?ctx = Inr (filter (\<lambda>w. has_digit (word_text w)) ?ctx)"
    by (rule numeric_tokens_words[OF window_words[OF wf]])
  show ?thesis
  proof (cases "build_row ops ?ctx (filter (\<lambda>w. has_digit (word_text w)) ?ctx)")
    case (Inl e)
    have "\<forall>acc. scan_step ops words i acc = Inr (acc @ [])"
      by (simp add: scan_step_def w n Inl Let_def)
    then show ?thesis by (intro exI[of _ "[]"]) simp
  next
    case (Inr row)
    show ?thesis
    proof (cases "isdigit (word_text (words ! i))
                  \<and> 3 \<le> length (filter (\<lambda>w. has_digit (word_text w)) ?ctx)")
      case True
      then have "\<forall>acc. scan_step ops words i acc = Inr (acc @ [row])"
        by (simp add: scan_step_def w n Inr Let_def)
      then show ?thesis by (intro exI[of _ "[row]"]) simp
    next
      case False
      then have "\<forall>acc. scan_step ops words i acc = Inr (acc @ [])"
        by (auto simp: scan_step_def w n Inr Let_def)
      then show ?thesis by (intro exI[of _ "[]"]) simp
    qed
  qed
qed

lemma scan_words:
  assumes wf: "list_all is_word words" and js: "\<forall>j \<in> set js. j < length words"
  shows "scan ops words js acc =
           Inr (acc @ concat (map (\<lambda>j. projr (scan_step ops words j [])) js))"
  using js
proof (induction js arbitrary: acc)
  case Nil
  then show ?case by simp
next
  case (Cons j js)
  then have j: "j < length words" by simp
  from scan_step_words[OF wf j, of ops] obtain rows
    where rows: "\<And>acc. scan_step ops words j acc = Inr (acc @ rows)" by blast
  have p: "projr (scan_step ops words j []) = rows" using rows[of "[]"] by simp
  have "scan ops words (j # js) acc = scan ops words js (acc @ rows)"
    by (simp add: rows)
  also have "\<dots> = Inr ((acc @ rows) @ concat (map (\<lambda>j. projr (scan_step ops words j [])) js))"
    using Cons by simp
  finally show ?case by (simp add: p)
qed

lemma extract_line_items_concat:
  assumes "list_all is_word words"
  shows "extract_line_items_from_ocr ops words =
           Inr (concat (map (\<lambda>j. projr (scan_step ops words j [])) [0..<length words]))"
  unfolding extract_line_items_from_ocr_def
  using scan_words[OF assms, of "[0..<length words]" ops "[]"] by simp


lemmas token_defs = has_digit_def char_isdigit_def is_decimal_def code_def isdigit_def
  word_of_def is_word_def word_text_def

lemma decimal_tokens:
  "decimal ''2'' = Some 2" "decimal ''3'' = Some 3" "decimal ''4'' = Some 4"
  "decimal ''5'' = Some 5" "decimal ''100.00'' = Some 100"
  "decimal ''1000.50'' = Some (2001 / 2)" "decimal ''2001.00'' = Some 2001"
  "decimal ''1,000.50'' = None" "decimal ''x9'' = None"
  by (simp_all add: decimal_defs)

lemma upt_0_5: "[0..<5] = [0, 1, 2, 3, 4]"
  by (simp add: upt_rec)

lemma upt_0_6: "[0..<6] = [0, 1, 2, 3, 4, 5]"
  by (simp add: upt_rec)

lemmas scan_defs = scan_step_def build_row_def token_float_def py_index_def py_join_def
  any_isdigit_def replace_comma_def isdigit_def char_isdigit_def is_decimal_def code_def
  word_of_def Let_def

subsection \<open>C3: the row built at a candidate\<close>

text \<open>
  C3 as the specification states it: at a purely numeric word whose window holds at least 3
  numeric tokens, the scan appends a line item whose \<^verbatim>\<open>row_total\<close> is the 4th numeric
  token. The window is \<^verbatim>\<open>words[i:i+8]\<close>, the candidate itself and the next 7 words, and
  the source reads \<^verbatim>\<open>numbers[3]\<close> behind the guard \<^verbatim>\<open>len(numbers) >= 3\<close>: with exactly 3
  numeric tokens the read raises \<^verbatim>\<open>IndexError\<close>, the \<^verbatim>\<open>except\<close> clause swallows it and
  nothing is appended.
\<close>

theorem extract_line_items_three_tokens_counterexample:
  "isdigit ''1''
   \<and> filter has_digit [''1'', ''Widget'', ''Blue'', ''2'', ''100.00''] = [''1'', ''2'', ''100.00'']
   \<and> extract_line_items_from_ocr exact_ops
        (map word_of [''1'', ''Widget'', ''Blue'', ''2'', ''100.00'']) = Inr []"
  by (simp add: extract_line_items_from_ocr_def upt_0_5 scan_defs has_digit_def exact_ops_simps
        decimal_tokens)


text \<open>
  C3, amended: for every sequence of word records and every position \<open>i\<close> whose word text
  is purely numeric, with the window \<^verbatim>\<open>words[i:i+8]\<close> (the candidate and the next 7 words)
  and its numeric tokens (the window words with at least one digit character, the candidate
  being the first of them): if at least 4 numeric tokens exist and \<^verbatim>\<open>float\<close> reads the
  2nd, 3rd and 4th, every comma removed, as \<open>q\<close>, \<open>p\<close> and \<open>t\<close>, the scan appends the line
  item whose description is the texts of the window words at offsets 1 and 2 joined by one
  space, whose \<^verbatim>\<open>qty\<close> is \<open>q\<close>, \<^verbatim>\<open>unit_price\<close> is \<open>p\<close>, \<^verbatim>\<open>row_total\<close> is \<open>t\<close> and whose
  \<^verbatim>\<open>valid\<close> flag is \<open>|p * q - t| < 2.0\<close> in float arithmetic; the item is in the output.
\<close>

theorem extract_line_items_row:
  assumes wf: "list_all is_word (words :: 'f json list)"
      and i: "i < length words"
      and start: "isdigit (word_text (words ! i))"
      and ctx: "context = take 8 (drop i words)"
      and nums: "numbers = filter (\<lambda>w. has_digit (word_text w)) context"
      and four: "4 \<le> length numbers"
      and q: "f_of_str ops (filter (\<lambda>c. c \<noteq> CHR '','') (word_text (numbers ! 1))) = Some q"
      and p: "f_of_str ops (filter (\<lambda>c. c \<noteq> CHR '','') (word_text (numbers ! 2))) = Some p"
      and t: "f_of_str ops (filter (\<lambda>c. c \<noteq> CHR '','') (word_text (numbers ! 3))) = Some t"
  shows "scan_step ops words i acc =
           Inr (acc @ [\<lparr>description = word_text (context ! 1) @ '' '' @ word_text (context ! 2),
                        qty = q, unit_price = p, row_total = t,
                        valid = f_lt ops (f_abs ops (f_sub ops (f_mul ops p q) t))
                                  (f_lit ops ''2.0'')\<rparr>])
         \<and> (\<exists>items. extract_line_items_from_ocr ops words = Inr items
               \<and> \<lparr>description = word_text (context ! 1) @ '' '' @ word_text (context ! 2),
                    qty = q, unit_price = p, row_total = t,
                    valid = f_lt ops (f_abs ops (f_sub ops (f_mul ops p q) t))
                              (f_lit ops ''2.0'')\<rparr> \<in> set items)"
proof -
  let ?row = "\<lparr>description = word_text (context ! 1) @ '' '' @ word_text (context ! 2),
                qty = q, unit_price = p, row_total = t,
                valid = f_lt ops (f_abs ops (f_sub ops (f_mul ops p q) t)) (f_lit ops ''2.0'')\<rparr>"
  have wfc: "list_all is_word context"
    unfolding ctx by (rule window_words[OF wf])
  have wfn: "list_all is_word numbers"
    using wfc by (auto simp: nums list_all_iff)
  have "length numbers \<le> length context"
    unfolding nums by (rule length_filter_le)
  with four have len: "4 \<le> length context"
    by (rule order_trans)
  have wfd: "list_all is_word (take 2 (drop 1 context))"
    by (rule window_words[OF wfc])
  have tx: "texts (take 2 (drop 1 context)) =
            Inr (map (\<lambda>w. JStr (word_text w)) (take 2 (drop 1 context)))"
    by (rule texts_words[OF wfd])
  have pj: "py_join '' '' (map (\<lambda>w. (JStr (word_text w) :: 'f json)) (take 2 (drop 1 context))) =
            Inr (word_text (context ! 1) @ '' '' @ word_text (context ! 2))"
    using join_context[OF len] by (simp add: py_join_def strings_words)
  have tq: "token_float ops numbers 1 = Inr q"
    using four q by (simp add: token_float_words[OF wfn])
  have tp: "token_float ops numbers 2 = Inr p"
    using four p by (simp add: token_float_words[OF wfn])
  have tt: "token_float ops numbers 3 = Inr t"
    using four t by (simp add: token_float_words[OF wfn])
  have row: "build_row ops context numbers = Inr ?row"
    using tx pj tq tp tt by (simp add: build_row_def)
  have w: "py_getitem (words ! i) ''text'' = Inr (JStr (word_text (words ! i)))"
    using wf i by (simp add: list_all_length word_getitem)
  have n: "numeric_tokens (take 8 (drop i words)) = Inr numbers"
    unfolding nums ctx by (rule numeric_tokens_words[OF window_words[OF wf]])
  have step: "scan_step ops words i acc' = Inr (acc' @ [?row])" for acc'
    using start four row[unfolded ctx] by (simp add: scan_step_def w n Let_def ctx)
  have "?row \<in> set (projr (scan_step ops words i []))" using step[of "[]"] by simp
  moreover have "i \<in> set [0..<length words]" using i by simp
  ultimately have "?row \<in> set (concat (map (\<lambda>j. projr (scan_step ops words j []))
                                          [0..<length words]))"
    by auto
  with extract_line_items_concat[OF wf, of ops] step[of acc] show ?thesis by simp
qed

theorem extract_line_items_row_witness:
  "scan_step exact_ops
     (map word_of [''1'', ''Widget'', ''Blue'', ''2'', ''1,000.50'', ''2,001.00'']) 0 [] =
     Inr [\<lparr>description = ''Widget Blue'', qty = 2, unit_price = 2001 / 2, row_total = 2001,
           valid = True\<rparr>]
   \<and> (\<exists>items. extract_line_items_from_ocr exact_ops
                (map word_of [''1'', ''Widget'', ''Blue'', ''2'', ''1,000.50'', ''2,001.00''])
              = Inr items
         \<and> \<lparr>description = ''Widget Blue'', qty = 2, unit_price = 2001 / 2, row_total = 2001,
              valid = True\<rparr> \<in> set items)"
  using extract_line_items_row
          [of "map word_of [''1'', ''Widget'', ''Blue'', ''2'', ''1,000.50'', ''2,001.00'']" 0
              "map word_of [''1'', ''Widget'', ''Blue'', ''2'', ''1,000.50'', ''2,001.00'']"
              "map word_of [''1'', ''2'', ''1,000.50'', ''2,001.00'']"
              exact_ops 2 "2001 / 2" 2001 "[]"]
  by (simp add: token_defs exact_ops_simps decimal_tokens)


subsection \<open>C7: a rejected candidate is dropped and the scan goes on\<close>

lemma build_row_fails:
  assumes wfn: "list_all is_word numbers"
      and bad: "length numbers < 4
           \<or> f_of_str ops (filter (\<lambda>c. c \<noteq> CHR '','') (word_text (numbers ! 1))) = None
           \<or> f_of_str ops (filter (\<lambda>c. c \<noteq> CHR '','') (word_text (numbers ! 2))) = None
           \<or> f_of_str ops (filter (\<lambda>c. c \<noteq> CHR '','') (word_text (numbers ! 3))) = None"
  shows "isl (build_row ops ws numbers)"
proof (cases "length numbers < 4")
  case True
  then have "token_float ops numbers 3 = Inl IndexError"
    by (intro token_float_range) simp
  then show ?thesis
    by (simp add: build_row_def split: sum.splits)
next
  case False
  then have len: "1 < length numbers" "2 < length numbers" "3 < length numbers" by simp_all
  have "isl (token_float ops numbers 1) \<or> isl (token_float ops numbers 2)
        \<or> isl (token_float ops numbers 3)"
    using bad False
    unfolding token_float_words[OF wfn len(1)] token_float_words[OF wfn len(2)]
      token_float_words[OF wfn len(3)]
    by auto
  then show ?thesis
    by (auto simp: build_row_def isl_def split: sum.splits)
qed

lemma scan_step_discard:
  assumes wf: "list_all is_word words" and i: "i < length words"
      and "isl (build_row ops (take 8 (drop i words))
                  (filter (\<lambda>w. has_digit (word_text w)) (take 8 (drop i words))))"
  shows "scan_step ops words i acc = Inr acc"
proof -
  have w: "py_getitem (words ! i) ''text'' = Inr (JStr (word_text (words ! i)))"
    using wf i by (simp add: list_all_length word_getitem)
  have n: "numeric_tokens (take 8 (drop i words)) =
           Inr (filter (\<lambda>w. has_digit (word_text w)) (take 8 (drop i words)))"
    by (rule numeric_tokens_words[OF window_words[OF wf]])
  from assms(3) show ?thesis
    by (cases "build_row ops (take 8 (drop i words))
                 (filter (\<lambda>w. has_digit (word_text w)) (take 8 (drop i words)))")
       (simp_all add: scan_step_def w n Let_def)
qed

text \<open>
  What is not a word record can make the extraction fail: the text of every word is read
  outside the \<^verbatim>\<open>try\<close> block.
\<close>

lemma extract_line_items_not_a_word:
  "extract_line_items_from_ocr ops [JObj [(''left'', JInt 0)]] = Inl KeyError"
  by (simp add: extract_line_items_from_ocr_def scan_step_def)

text \<open>
  C7: for every sequence of word records, line-item extraction never fails as a whole: it
  returns a list. A candidate with fewer than 3 numeric tokens in its window leaves the
  output as it was; so does a candidate whose 4th numeric token is missing or one of whose
  three numeric tokens \<^verbatim>\<open>float\<close> does not parse, every comma removed. Every position is
  examined on its own window, whatever happened at the positions before it, so windows
  overlap; and the output is empty when no candidate is accepted.
\<close>

theorem extract_line_items_recovers:
  assumes wf: "list_all is_word words" and i: "i < length words"
  shows "(\<exists>items. extract_line_items_from_ocr ops words = Inr items)
   \<and> (length (filter (\<lambda>w. has_digit (word_text w)) (take 8 (drop i words))) < 3
        \<longrightarrow> scan_step ops words i acc = Inr acc)
   \<and> (length (filter (\<lambda>w. has_digit (word_text w)) (take 8 (drop i words))) < 4
        \<or> f_of_str ops (filter (\<lambda>c. c \<noteq> CHR '','')
              (word_text (filter (\<lambda>w. has_digit (word_text w)) (take 8 (drop i words)) ! 1)))
            = None
        \<or> f_of_str ops (filter (\<lambda>c. c \<noteq> CHR '','')
              (word_text (filter (\<lambda>w. has_digit (word_text w)) (take 8 (drop i words)) ! 2)))
            = None
        \<or> f_of_str ops (filter (\<lambda>c. c \<noteq> CHR '','')
              (word_text (filter (\<lambda>w. has_digit (word_text w)) (take 8 (drop i words)) ! 3)))
            = None
        \<longrightarrow> scan_step ops words i acc = Inr acc)
   \<and> extract_line_items_from_ocr ops words =
         Inr (concat (map (\<lambda>j. projr (scan_step ops words j [])) [0..<length words]))
   \<and> ((\<forall>j<length words. \<not> isdigit (word_text (words ! j)))
        \<longrightarrow> extract_line_items_from_ocr ops words = Inr [])"
proof (intro conjI impI)
  show "\<exists>items. extract_line_items_from_ocr ops words = Inr items"
    using extract_line_items_concat[OF wf, of ops] by blast
next
  assume "length (filter (\<lambda>w. has_digit (word_text w)) (take 8 (drop i words))) < 3"
  then have "length (filter (\<lambda>w. has_digit (word_text w)) (take 8 (drop i words))) < 4"
    by simp
  then show "scan_step ops words i acc = Inr acc"
    by (intro scan_step_discard[OF wf i] build_row_fails) (auto simp: list_all_iff
          dest: in_set_takeD in_set_dropD intro: wf[unfolded list_all_iff, rule_format])
next
  assume "length (filter (\<lambda>w. has_digit (word_text w)) (take 8 (drop i words))) < 4
        \<or> f_of_str ops (filter (\<lambda>c. c \<noteq> CHR '','')
              (word_text (filter (\<lambda>w. has_digit (word_text w)) (take 8 (drop i words)) ! 1)))
            = None
        \<or> f_of_str ops (filter (\<lambda>c. c \<noteq> CHR '','')
              (word_text (filter (\<lambda>w. has_digit (word_text w)) (take 8 (drop i words)) ! 2)))
            = None
        \<or> f_of_str ops (filter (\<lambda>c. c \<noteq> CHR '','')
              (word_text (filter (\<lambda>w. has_digit (word_text w)) (take 8 (drop i words)) ! 3)))
            = None"
  moreover have "list_all is_word
                   (filter (\<lambda>w. has_digit (word_text w)) (take 8 (drop i words)))"
    using window_words[OF wf, of 8 i] by (auto simp: list_all_iff)
  ultimately show "scan_step ops words i acc = Inr acc"
    by (intro scan_step_discard[OF wf i] build_row_fails)
next
  show "extract_line_items_from_ocr ops words =
         Inr (concat (map (\<lambda>j. projr (scan_step ops words j [])) [0..<length words]))"
    by (rule extract_line_items_concat[OF wf])
next
  assume none: "\<forall>j<length words. \<not> isdigit (word_text (words ! j))"
  have "scan_step ops words j [] = Inr []" if "j < length words" for j
  proof -
    have "py_getitem (words ! j) ''text'' = Inr (JStr (word_text (words ! j)))"
      using wf that by (simp add: list_all_length word_getitem)
    then show ?thesis using none that by (simp add: scan_step_def)
  qed
  then have "concat (map (\<lambda>j. projr (scan_step ops words j [])) [0..<length words]) = []"
    by simp
  then show "extract_line_items_from_ocr ops words = Inr []"
    by (simp add: extract_line_items_concat[OF wf])
qed


theorem extract_line_items_recovers_witness:
  "scan_step exact_ops (map word_of [''1'', ''2'', ''3'', ''4'', ''5'']) 3 [] = Inr []
   \<and> extract_line_items_from_ocr exact_ops (map word_of [''1'', ''2'', ''3'', ''4'', ''5'']) =
       Inr [\<lparr>description = ''2 3'', qty = 2, unit_price = 3, row_total = 4, valid = False\<rparr>,
            \<lparr>description = ''3 4'', qty = 3, unit_price = 4, row_total = 5, valid = False\<rparr>]
   \<and> scan_step exact_ops (map word_of [''1'', ''x9'', ''3'', ''4'']) 0 [] = Inr []
   \<and> extract_line_items_from_ocr exact_ops (map word_of [''Total'', ''due'']) = Inr []"
proof -
  have wf: "list_all is_word (map word_of ws :: real json list)" for ws
    by (simp add: list_all_iff is_word_def word_of_def)
  have a: "length (filter (\<lambda>w. has_digit (word_text w))
             (take 8 (drop 3 (map word_of [''1'', ''2'', ''3'', ''4'', ''5''])))) < 3"
    by (simp add: token_defs)
  have b: "f_of_str exact_ops (filter (\<lambda>c. c \<noteq> CHR '','')
             (word_text (filter (\<lambda>w. has_digit (word_text w))
                (take 8 (drop 0 (map word_of [''1'', ''x9'', ''3'', ''4'']))) ! 1))) = None"
    by (simp add: token_defs exact_ops_simps decimal_tokens)
  have c: "concat (map (\<lambda>j. projr (scan_step exact_ops
                                      (map word_of [''1'', ''2'', ''3'', ''4'', ''5'']) j []))
                     [0..<length (map word_of [''1'', ''2'', ''3'', ''4'', ''5''] :: real json list)]) =
       [\<lparr>description = ''2 3'', qty = 2, unit_price = 3, row_total = 4, valid = False\<rparr>,
        \<lparr>description = ''3 4'', qty = 3, unit_price = 4, row_total = 5, valid = False\<rparr>]"
    by (simp add: upt_0_5 scan_defs exact_ops_simps decimal_tokens)
  have d: "\<forall>j<length (map word_of [''Total'', ''due''] :: real json list).
             \<not> isdigit (word_text (map word_of [''Total'', ''due''] ! j :: real json))"
    by (simp add: token_defs less_Suc_eq)
  have i3: "3 < length (map word_of [''1'', ''2'', ''3'', ''4'', ''5''] :: real json list)"
    by simp
  have i0: "0 < length (map word_of [''1'', ''2'', ''3'', ''4'', ''5''] :: real json list)"
    by simp
  have j0: "0 < length (map word_of [''1'', ''x9'', ''3'', ''4''] :: real json list)"
    by simp
  have k0: "0 < length (map word_of [''Total'', ''due''] :: real json list)"
    by simp
  from extract_line_items_recovers[OF wf i3, of exact_ops "[]"] a
  have 1: "scan_step exact_ops (map word_of [''1'', ''2'', ''3'', ''4'', ''5'']) 3 [] = Inr []"
    by blast
  from extract_line_items_recovers[OF wf i0, of exact_ops "[]"] c
  have 2: "extract_line_items_from_ocr exact_ops
             (map word_of [''1'', ''2'', ''3'', ''4'', ''5'']) =
       Inr [\<lparr>description = ''2 3'', qty = 2, unit_price = 3, row_total = 4, valid = False\<rparr>,
            \<lparr>description = ''3 4'', qty = 3, unit_price = 4, row_total = 5, valid = False\<rparr>]"
    by simp
  from extract_line_items_recovers[OF wf j0, of exact_ops "[]"] b
  have 3: "scan_step exact_ops (map word_of [''1'', ''x9'', ''3'', ''4'']) 0 [] = Inr []"
    by blast
  from extract_line_items_recovers[OF wf k0, of exact_ops "[]"] d
  have 4: "extract_line_items_from_ocr exact_ops (map word_of [''Total'', ''due'']) = Inr []"
    by blast
  from 1 2 3 4 show ?thesis by blast
qed

section \<open>Properties of the field extractor\<close>

lemma code_char_of: "n < 256 \<Longrightarrow> code (char_of n) = n"
  by (simp add: code_def)

lemma ascii_upper_idem: "ascii_upper (ascii_upper c) = ascii_upper c"
  by (auto simp: ascii_upper_def code_char_of)

lemma ascii_lower_upper: "ascii_lower (ascii_upper c) = ascii_lower c"
proof (cases "97 \<le> code c \<and> code c \<le> 122")
  case True
  then have r: "65 \<le> code c - 32" "code c - 32 \<le> 90" "code c - 32 + 32 = code c"
    "code c - 32 < 256" "\<not> code c \<le> 90"
    by arith+
  have u: "code (ascii_upper c) = code c - 32"
    using True by (simp add: ascii_upper_def code_char_of[OF r(4)])
  have "ascii_lower (ascii_upper c) = char_of (code (ascii_upper c) + 32)"
    unfolding ascii_lower_def u using r(1,2) by simp
  also have "\<dots> = char_of (code c)" unfolding u r(3) by (rule refl)
  also have "\<dots> = c" by (simp add: code_def)
  finally have "ascii_lower (ascii_upper c) = c" .
  moreover have "ascii_lower c = c" using r(5) by (simp add: ascii_lower_def)
  ultimately show ?thesis by simp
next
  case False
  then have "ascii_upper c = c" unfolding ascii_upper_def by (rule if_not_P)
  then show ?thesis by simp
qed

lemma upper_cases: "ascii_upper c = c \<or> ascii_lower c = c"
  by (auto simp: ascii_upper_def ascii_lower_def)

lemma matches_ignorecase_upper:
  "matches_ignorecase rs (ascii_upper c) = matches_ignorecase rs c"
  using upper_cases[of c]
  by (auto simp: matches_ignorecase_def ascii_upper_idem ascii_lower_upper)


lemma first_some_map_option:
  "first_some (\<lambda>x. map_option h (f x)) xs = map_option h (first_some f xs)"
  by (induction xs) (simp_all split: option.splits)

lemma counts_upper: "counts it (map ascii_upper s) = counts it s"
proof (cases it)
  case (Rep rs lo hi)
  have "takeWhile (matches_ignorecase rs) (map ascii_upper s) =
        map ascii_upper (takeWhile (matches_ignorecase rs) s)"
    by (simp add: takeWhile_map comp_def matches_ignorecase_upper)
  then show ?thesis by (simp add: Rep)
qed

lemma match_items_upper:
  "match_items its (map ascii_upper s) = map_option (map (map ascii_upper)) (match_items its s)"
proof (induction its arbitrary: s)
  case Nil
  then show ?case by simp
next
  case (Cons it its)
  have "match_items (it # its) (map ascii_upper s) =
        first_some (\<lambda>n. map_option (map (map ascii_upper))
                           (map_option (Cons (take n s)) (match_items its (drop n s))))
          (counts it s)"
    by (simp add: counts_upper take_map drop_map Cons.IH option.map_comp comp_def)
  also have "\<dots> = map_option (map (map ascii_upper)) (match_items (it # its) s)"
    by (simp add: first_some_map_option)
  finally show ?case .
qed

lemma match_at_upper:
  "match_at p (map ascii_upper s) = map_option (map ascii_upper) (match_at p s)"
  by (simp add: match_at_def match_items_upper option.map_comp comp_def drop_map map_concat)

lemma re_search_upper:
  "re_search p (map ascii_upper s) = map_option (map ascii_upper) (re_search p s)"
  by (simp add: re_search_def drop_map match_at_upper first_some_map_option)


lemma extract_field_none:
  "\<forall>p \<in> set pats. re_search p text = None \<Longrightarrow>
   extract_field ops pats text field_name =
     \<lparr>fv_value = None, fv_confidence = f_lit ops ''0.0'', fv_present = False\<rparr>"
  by (induction pats) simp_all

lemma extract_field_first:
  "\<forall>p' \<in> set ps1. re_search p' text = None \<Longrightarrow> re_search p text = Some g \<Longrightarrow>
   extract_field ops (ps1 @ p # ps2) text field_name =
     \<lparr>fv_value = Some (strip g), fv_confidence = f_lit ops ''0.95'', fv_present = True\<rparr>"
  by (induction ps1) simp_all

lemma search_invoice_example:
  "re_search (hd invoice_number_patterns) ''Invoice No: INV-2023-001'' = Some ''INV-2023-001''"
  by code_simp

lemma search_date_example:
  "re_search (hd date_patterns) ''Invoice No: INV-2023-001'' = None"
  by code_simp

lemma strip_example: "strip ''INV-2023-001'' = ''INV-2023-001''"
  by (simp add: strip_def char_isspace_def code_def)

lemma upper_example:
  "map ascii_upper ''Invoice No: INV-2023-001'' = ''INVOICE NO: INV-2023-001''"
  by code_simp

subsection \<open>C5: the first pattern that matches gives the field\<close>

text \<open>
  C5: for every pattern list and every text, \<^verbatim>\<open>extract_field\<close> returns the absent value
  (\<^verbatim>\<open>None\<close>, 0.0, false) when no pattern of the list matches; when a pattern matches and
  no pattern before it in the list does, it returns group 1 of that match with the
  whitespace at both ends removed, confidence 0.95 and present true, whatever patterns
  follow. The search ignores case: on the text in upper case it finds the same group, in
  upper case. The four regex fields \<^verbatim>\<open>invoice_number\<close>, \<^verbatim>\<open>date\<close>, \<^verbatim>\<open>gst_number\<close> and
  \<^verbatim>\<open>po_number\<close> are each the result of \<^verbatim>\<open>extract_field\<close> on the pattern list of the field.
  For the text \<^verbatim>\<open>Invoice No: INV-2023-001\<close> the field \<^verbatim>\<open>invoice_number\<close> has the value
  \<^verbatim>\<open>INV-2023-001\<close>, confidence 0.95 and present true.
\<close>

theorem extract_field_first_match:
  "((\<forall>p \<in> set pats. re_search p text = None) \<longrightarrow>
      extract_field ops pats text field_name =
        \<lparr>fv_value = None, fv_confidence = f_lit ops ''0.0'', fv_present = False\<rparr>)
   \<and> ((\<forall>p' \<in> set ps1. re_search p' text = None) \<and> re_search p text = Some g \<longrightarrow>
        extract_field ops (ps1 @ p # ps2) text field_name =
          \<lparr>fv_value = Some (strip g), fv_confidence = f_lit ops ''0.95'', fv_present = True\<rparr>)
   \<and> re_search p (map ascii_upper text) = map_option (map ascii_upper) (re_search p text)
   \<and> extract_fields_from_text ops text =
       [(''invoice_number'', extract_field ops invoice_number_patterns text ''invoice_number''),
        (''date'', extract_field ops date_patterns text ''date''),
        (''gst_number'', extract_field ops gst_number_patterns text ''gst_number''),
        (''po_number'', extract_field ops po_number_patterns text ''po_number'')]
   \<and> map_of (extract_fields_from_text ops ''Invoice No: INV-2023-001'') ''invoice_number'' =
       Some \<lparr>fv_value = Some ''INV-2023-001'', fv_confidence = f_lit ops ''0.95'',
             fv_present = True\<rparr>"
proof -
  have "invoice_number_patterns = [] @ hd invoice_number_patterns # []"
    by (simp add: invoice_number_patterns_def)
  then have "extract_field ops invoice_number_patterns ''Invoice No: INV-2023-001''
               ''invoice_number'' =
             \<lparr>fv_value = Some ''INV-2023-001'', fv_confidence = f_lit ops ''0.95'',
              fv_present = True\<rparr>"
    using extract_field_first[of "[]" "''Invoice No: INV-2023-001''" "hd invoice_number_patterns"
            "''INV-2023-001''" ops "[]" "''invoice_number''"]
    by (simp add: search_invoice_example strip_example)
  then show ?thesis
    by (simp add: extract_field_none extract_field_first re_search_upper
          extract_fields_from_text_def patterns_def)
qed

theorem extract_field_first_match_witness:
  "extract_field exact_ops date_patterns ''Invoice No: INV-2023-001'' ''date'' =
     \<lparr>fv_value = None, fv_confidence = f_lit exact_ops ''0.0'', fv_present = False\<rparr>
   \<and> extract_field exact_ops (date_patterns @ invoice_number_patterns @ po_number_patterns)
       ''Invoice No: INV-2023-001'' ''invoice_number'' =
     \<lparr>fv_value = Some ''INV-2023-001'', fv_confidence = f_lit exact_ops ''0.95'',
      fv_present = True\<rparr>
   \<and> map_of (extract_fields_from_text exact_ops ''Invoice No: INV-2023-001'') ''invoice_number'' =
     Some \<lparr>fv_value = Some ''INV-2023-001'', fv_confidence = f_lit exact_ops ''0.95'',
           fv_present = True\<rparr>
   \<and> re_search (hd invoice_number_patterns) ''INVOICE NO: INV-2023-001'' = Some ''INV-2023-001''"
proof -
  have inv: "invoice_number_patterns = [hd invoice_number_patterns]"
    by (simp add: invoice_number_patterns_def)
  have dat: "date_patterns = [hd date_patterns]"
    by (simp add: date_patterns_def)
  have n: "\<forall>p \<in> set date_patterns. re_search p ''Invoice No: INV-2023-001'' = None"
    by (subst dat) (simp add: search_date_example)
  from extract_field_first_match
         [of date_patterns "''Invoice No: INV-2023-001''" exact_ops "''date''"] n
  have 1: "extract_field exact_ops date_patterns ''Invoice No: INV-2023-001'' ''date'' =
     \<lparr>fv_value = None, fv_confidence = f_lit exact_ops ''0.0'', fv_present = False\<rparr>"
    by blast
  from extract_field_first_match
         [of _ "''Invoice No: INV-2023-001''" exact_ops "''invoice_number''" date_patterns
             "hd invoice_number_patterns" "''INV-2023-001''" po_number_patterns]
       n search_invoice_example
  have "extract_field exact_ops (date_patterns @ hd invoice_number_patterns # po_number_patterns)
          ''Invoice No: INV-2023-001'' ''invoice_number'' =
     \<lparr>fv_value = Some (strip ''INV-2023-001''), fv_confidence = f_lit exact_ops ''0.95'',
      fv_present = True\<rparr>"
    by blast
  then have 2: "extract_field exact_ops
          (date_patterns @ invoice_number_patterns @ po_number_patterns)
          ''Invoice No: INV-2023-001'' ''invoice_number'' =
     \<lparr>fv_value = Some ''INV-2023-001'', fv_confidence = f_lit exact_ops ''0.95'',
      fv_present = True\<rparr>"
    by (subst inv) (simp add: strip_example)
  from extract_field_first_match
         [of _ "''Invoice No: INV-2023-001''" exact_ops "''invoice_number''" "[]"
             "hd invoice_number_patterns" "''INV-2023-001''" "[]"]
       search_invoice_example
  have "extract_field exact_ops ([] @ hd invoice_number_patterns # [])
          ''Invoice No: INV-2023-001'' ''invoice_number'' =
     \<lparr>fv_value = Some (strip ''INV-2023-001''), fv_confidence = f_lit exact_ops ''0.95'',
      fv_present = True\<rparr>"
    by simp
  then have f: "extract_field exact_ops invoice_number_patterns
          ''Invoice No: INV-2023-001'' ''invoice_number'' =
     \<lparr>fv_value = Some ''INV-2023-001'', fv_confidence = f_lit exact_ops ''0.95'',
      fv_present = True\<rparr>"
    by (subst inv) (simp add: strip_example)
  from extract_field_first_match
         [of "[]" "''Invoice No: INV-2023-001''" exact_ops "''x''" "[]"
             "hd invoice_number_patterns"]
  have l: "extract_fields_from_text exact_ops ''Invoice No: INV-2023-001'' =
       [(''invoice_number'', extract_field exact_ops invoice_number_patterns
                               ''Invoice No: INV-2023-001'' ''invoice_number''),
        (''date'', extract_field exact_ops date_patterns ''Invoice No: INV-2023-001'' ''date''),
        (''gst_number'', extract_field exact_ops gst_number_patterns
                           ''Invoice No: INV-2023-001'' ''gst_number''),
        (''po_number'', extract_field exact_ops po_number_patterns
                          ''Invoice No: INV-2023-001'' ''po_number'')]"
    and u: "re_search (hd invoice_number_patterns) (map ascii_upper ''Invoice No: INV-2023-001'')
            = map_option (map ascii_upper)
                (re_search (hd invoice_number_patterns) ''Invoice No: INV-2023-001'')"
    by blast+
  have 3: "map_of (extract_fields_from_text exact_ops ''Invoice No: INV-2023-001'')
             ''invoice_number'' =
     Some \<lparr>fv_value = Some ''INV-2023-001'', fv_confidence = f_lit exact_ops ''0.95'',
           fv_present = True\<rparr>"
    unfolding l by (simp add: f)
  have 4: "re_search (hd invoice_number_patterns) ''INVOICE NO: INV-2023-001'' =
           Some ''INV-2023-001''"
    using u unfolding upper_example search_invoice_example
    by (simp add: ascii_upper_def code_def)
  from 1 2 3 4 show ?thesis by blast
qed


subsection \<open>C6: the entity fields are chosen by position\<close>







subsection \<open>C4: presence, value and confidence of a field\<close>








section \<open>Properties of the verification driver\<close>

subsection \<open>C8: a document with a missing input is skipped\<close>



end
